theory Spec2Isabelle
  imports Main
begin

section \<open>The date-time values of the picker\<close>

text \<open>
  The picker computes with Luxon \<^verbatim>\<open>DateTime\<close> values in the local zone. The model
  keeps the calendar fields of such a value and works in a zone with a fixed offset
  (no daylight-saving jumps), so \<^verbatim>\<open>setZone('local')\<close> is the identity and two values are
  compared through \<open>valueOf\<close>, the number of milliseconds since the epoch, as Luxon
  does for \<^verbatim>\<open><\<close> and \<^verbatim>\<open>>\<close>.
\<close>

record DateTime =
  year :: int
  month :: int
  day :: int
  hour :: int
  minute :: int
  second :: int
  millisecond :: int

text \<open>The time of day of a valid \<^verbatim>\<open>DateTime\<close>.\<close>

definition valid_time :: "DateTime \<Rightarrow> bool" where
  "valid_time d \<longleftrightarrow>
     0 \<le> hour d \<and> hour d < 24 \<and> 0 \<le> minute d \<and> minute d < 60 \<and>
     0 \<le> second d \<and> second d < 60 \<and> 0 \<le> millisecond d \<and> millisecond d < 1000"

definition isLeapYear :: "int \<Rightarrow> bool" where
  "isLeapYear y \<longleftrightarrow> y mod 4 = 0 \<and> (y mod 100 \<noteq> 0 \<or> y mod 400 = 0)"

definition daysInMonth :: "int \<Rightarrow> int \<Rightarrow> int" where
  "daysInMonth y m =
     (if m = 2 then (if isLeapYear y then 29 else 28)
      else if m = 4 \<or> m = 6 \<or> m = 9 \<or> m = 11 then 30 else 31)"

text \<open>A date of the calendar: a month from 1 to 12 and a day of that month.\<close>

definition valid_date :: "DateTime \<Rightarrow> bool" where
  "valid_date d \<longleftrightarrow>
     1 \<le> month d \<and> month d \<le> 12 \<and> 1 \<le> day d \<and> day d \<le> daysInMonth (year d) (month d)"

text \<open>Days between 1970-01-01 and the civil date, the day part of Luxon's timestamp.\<close>

definition days_from_civil :: "int \<Rightarrow> int \<Rightarrow> int \<Rightarrow> int" where
  "days_from_civil y m d =
     (let y' = (if m \<le> 2 then y - 1 else y);
          era = y' div 400;
          yoe = y' - era * 400;
          doy = (153 * (if m > 2 then m - 3 else m + 9) + 2) div 5 + d - 1;
          doe = yoe * 365 + yoe div 4 - yoe div 100 + doy
      in era * 146097 + doe - 719468)"

definition millisOfDay :: "DateTime \<Rightarrow> int" where
  "millisOfDay d = ((hour d * 60 + minute d) * 60 + second d) * 1000 + millisecond d"

definition dayNumber :: "DateTime \<Rightarrow> int" where
  "dayNumber d = days_from_civil (year d) (month d) (day d)"

definition valueOf :: "DateTime \<Rightarrow> int" where
  "valueOf d = dayNumber d * 86400000 + millisOfDay d"

text \<open>Luxon's weekday: 1 is Monday, 7 is Sunday (1970-01-01 was a Thursday).\<close>

definition weekday :: "DateTime \<Rightarrow> int" where
  "weekday d = (dayNumber d + 3) mod 7 + 1"

definition DateTime_local :: "int \<Rightarrow> int \<Rightarrow> int \<Rightarrow> DateTime" where
  "DateTime_local y m d =
     \<lparr>year = y, month = m, day = d, hour = 0, minute = 0, second = 0, millisecond = 0\<rparr>"

definition startOf_day :: "DateTime \<Rightarrow> DateTime" where
  "startOf_day d = d\<lparr>hour := 0, minute := 0, second := 0, millisecond := 0\<rparr>"

definition endOf_day :: "DateTime \<Rightarrow> DateTime" where
  "endOf_day d = d\<lparr>hour := 23, minute := 59, second := 59, millisecond := 999\<rparr>"

text \<open>\<^verbatim>\<open>a.hasSame(b, 'day')\<close>: \<open>b\<close> lies between the start and the end of \<open>a\<close>'s day.\<close>

definition hasSame_day :: "DateTime \<Rightarrow> DateTime \<Rightarrow> bool" where
  "hasSame_day a b \<longleftrightarrow>
     valueOf (startOf_day a) \<le> valueOf b \<and> valueOf b \<le> valueOf (endOf_day a)"

definition hasSame_millisecond :: "DateTime \<Rightarrow> DateTime \<Rightarrow> bool" where
  "hasSame_millisecond a b \<longleftrightarrow> valueOf a \<le> valueOf b \<and> valueOf b \<le> valueOf a"

text \<open>
  \<^verbatim>\<open>a.equals(b)\<close> compares the instant, the zone and the locale of the two values. The
  values of the model are all in one zone and one locale, which leaves the instant.
\<close>

definition equals :: "DateTime \<Rightarrow> DateTime \<Rightarrow> bool" where
  "equals a b \<longleftrightarrow> valueOf a = valueOf b"

text \<open>The next and the previous calendar day; the time of day is kept.\<close>

definition next_day :: "DateTime \<Rightarrow> DateTime" where
  "next_day d =
     (if day d < daysInMonth (year d) (month d) then d\<lparr>day := day d + 1\<rparr>
      else if month d < 12 then d\<lparr>month := month d + 1, day := 1\<rparr>
      else d\<lparr>year := year d + 1, month := 1, day := 1\<rparr>)"

definition prev_day :: "DateTime \<Rightarrow> DateTime" where
  "prev_day d =
     (if 1 < day d then d\<lparr>day := day d - 1\<rparr>
      else if 1 < month d then d\<lparr>month := month d - 1, day := daysInMonth (year d) (month d - 1)\<rparr>
      else d\<lparr>year := year d - 1, month := 12, day := 31\<rparr>)"

fun iterate :: "nat \<Rightarrow> ('a \<Rightarrow> 'a) \<Rightarrow> 'a \<Rightarrow> 'a" where
  "iterate 0 f x = x"
| "iterate (Suc n) f x = iterate n f (f x)"

text \<open>\<^verbatim>\<open>d.plus({days: n})\<close> and \<^verbatim>\<open>d.minus({days: n})\<close> (a negative \<open>n\<close>).\<close>

definition plus_days :: "DateTime \<Rightarrow> int \<Rightarrow> DateTime" where
  "plus_days d n = (if 0 \<le> n then iterate (nat n) next_day d else iterate (nat (- n)) prev_day d)"

text \<open>
  \<^verbatim>\<open>d.plus({months: n})\<close>: the month moves, the day is capped by the length of the
  month reached.
\<close>

definition monthIndex :: "DateTime \<Rightarrow> int" where
  "monthIndex d = year d * 12 + (month d - 1)"

definition plus_months :: "DateTime \<Rightarrow> int \<Rightarrow> DateTime" where
  "plus_months d n =
     (let idx = monthIndex d + n; y = idx div 12; m = idx mod 12 + 1
      in d\<lparr>year := y, month := m, day := min (day d) (daysInMonth y m)\<rparr>)"

text \<open>Adding milliseconds carries into the days.\<close>

definition plus_millis :: "DateTime \<Rightarrow> int \<Rightarrow> DateTime" where
  "plus_millis d n =
     (let total = millisOfDay d + n; t = total mod 86400000
      in (plus_days d (total div 86400000))
           \<lparr>hour := t div 3600000, minute := (t div 60000) mod 60,
            second := (t div 1000) mod 60, millisecond := t mod 1000\<rparr>)"

record Duration =
  years :: int
  months :: int
  weeks :: int
  days :: int
  hours :: int
  minutes :: int
  seconds :: int
  milliseconds :: int

text \<open>
  \<^verbatim>\<open>d.plus(duration)\<close>: Luxon shifts the months first, then the days, then adds the
  rest as milliseconds.
\<close>

definition plus_duration :: "DateTime \<Rightarrow> Duration \<Rightarrow> DateTime" where
  "plus_duration d u =
     plus_millis
       (plus_days (plus_months d (years u * 12 + months u)) (weeks u * 7 + days u))
       (((hours u * 60 + minutes u) * 60 + seconds u) * 1000 + milliseconds u)"

section \<open>CalendarRenderer.buildCalendar\<close>

type_synonym matrix = "DateTime list list"

record CalendarData =
  cal_month :: DateTime
  calendar :: matrix

text \<open>
  \<^verbatim>\<open>calendar[row][col] = v\<close> on the array of rows. The write is defined where the loop
  uses it: on an existing row, at an existing column or at the end of the row. \<open>None\<close>
  stands for the other cases (a missing row raises, a skipped column leaves a hole).
\<close>

definition put_cell :: "matrix \<Rightarrow> nat \<Rightarrow> nat \<Rightarrow> DateTime \<Rightarrow> matrix option" where
  "put_cell cal row col v =
     (if row < length cal then
        (let r = cal ! row in
         if col < length r then Some (cal[row := r[col := v]])
         else if col = length r then Some (cal[row := r @ [v]])
         else None)
      else None)"

definition set_hms :: "DateTime \<Rightarrow> int \<Rightarrow> int \<Rightarrow> int \<Rightarrow> DateTime" where
  "set_hms d h m s = d\<lparr>hour := h, minute := m, second := s\<rparr>"

text \<open>
  The loop \<^verbatim>\<open>for (let i = 0, col = 0, row = 0; i < 42; i++, col++, curDate = curDate.plus({days: 1}))\<close>.
\<close>

function build_loop ::
  "nat \<Rightarrow> nat \<Rightarrow> nat \<Rightarrow> DateTime \<Rightarrow> int \<Rightarrow> int \<Rightarrow> int \<Rightarrow> matrix \<Rightarrow> matrix option" where
  "build_loop i col row curDate h m s cal =
     (if i < 42 then
        (let wrap = (i > 0 \<and> col mod 7 = 0);
             col' = (if wrap then 0 else col);
             row' = (if wrap then row + 1 else row)
         in case put_cell cal row' col' (set_hms curDate h m s) of
              None \<Rightarrow> None
            | Some cal' \<Rightarrow> build_loop (i + 1) (col' + 1) row' (plus_days curDate 1) h m s cal')
      else Some cal)"
  by pat_completeness auto
termination
  by (relation "measure (\<lambda>(i, col, row, curDate, h, m, s, cal). 42 - i)") auto

declare build_loop.simps [simp del]

text \<open>The weekday of the first of the month, from 0 (Sunday) to 6 (Saturday).\<close>

definition dayOfWeek :: "DateTime \<Rightarrow> int" where
  "dayOfWeek monthDT = weekday (monthDT\<lparr>day := 1\<rparr>) mod 7"

text \<open>
  The offset of the first of the month in its week. For a first day of the week from 0
  to 6 the sum is not negative, and \<^verbatim>\<open>%\<close> is \<open>mod\<close>.
\<close>

definition firstDayOfWeekInLocale :: "DateTime \<Rightarrow> int \<Rightarrow> int" where
  "firstDayOfWeekInLocale monthDT firstDay = (dayOfWeek monthDT - firstDay + 7) mod 7"

definition firstCell :: "DateTime \<Rightarrow> int \<Rightarrow> DateTime" where
  "firstCell monthDT firstDay =
     plus_days (DateTime_local (year monthDT) (month monthDT) 1)
       (- firstDayOfWeekInLocale monthDT firstDay)"

definition buildCalendar :: "int \<Rightarrow> DateTime \<Rightarrow> matrix option" where
  "buildCalendar firstDay monthDT =
     build_loop 0 0 0 (firstCell monthDT firstDay)
       (hour monthDT) (minute monthDT) (second monthDT) [[], [], [], [], [], []]"

section \<open>CalendarRenderer.render\<close>

datatype side = Left | Right

text \<open>What \<^verbatim>\<open>isCustomDate\<close> returns: \<^verbatim>\<open>false\<close>, one class name or an array of them.\<close>

datatype custom = NoCustom | OneClass string | ManyClasses "string list"

record CalendarRenderer =
  cr_linkedCalendars :: bool
  cr_singleDatePicker :: bool
  cr_isInvalidDate :: "DateTime \<Rightarrow> bool"
  cr_isCustomDate :: "DateTime \<Rightarrow> custom"

definition cell :: "matrix \<Rightarrow> nat \<Rightarrow> nat \<Rightarrow> DateTime option" where
  "cell cal row col =
     (if row < length cal \<and> col < length (cal ! row) then Some (cal ! row ! col) else None)"

definition minDateLimit :: "side \<Rightarrow> DateTime option \<Rightarrow> DateTime \<Rightarrow> DateTime option" where
  "minDateLimit sd minD start = (if sd = Left then minD else Some (startOf_day start))"

text \<open>
  The upper limit of the cells: \<^verbatim>\<open>maxDate\<close>, replaced by the end of the day of
  \<^verbatim>\<open>startDate.plus(maxSpan)\<close> when no end date is chosen, a span is configured and
  \<^verbatim>\<open>!maxDateLimit || maxLimit > maxDateLimit\<close>.
\<close>

definition maxDateLimit ::
  "DateTime \<Rightarrow> DateTime option \<Rightarrow> DateTime option \<Rightarrow> Duration option \<Rightarrow> DateTime option" where
  "maxDateLimit start end maxD span =
     (case (end, span) of
        (None, Some sp) \<Rightarrow>
          (let maxLimit = endOf_day (plus_duration start sp) in
           case maxD of
             None \<Rightarrow> Some maxLimit
           | Some md \<Rightarrow> if valueOf maxLimit > valueOf md then Some maxLimit else Some md)
      | _ \<Rightarrow> maxD)"

definition isPrevAvailable ::
  "CalendarRenderer \<Rightarrow> side \<Rightarrow> DateTime option \<Rightarrow> DateTime \<Rightarrow> bool" where
  "isPrevAvailable cr sd minLimit firstDay \<longleftrightarrow>
     (case minLimit of None \<Rightarrow> True
      | Some ml \<Rightarrow> valueOf (startOf_day firstDay) > valueOf (startOf_day ml)) \<and>
     (sd = Left \<or> \<not> cr_linkedCalendars cr)"

definition isNextAvailable ::
  "CalendarRenderer \<Rightarrow> side \<Rightarrow> DateTime option \<Rightarrow> DateTime \<Rightarrow> bool" where
  "isNextAvailable cr sd maxLimit lastDay \<longleftrightarrow>
     (case maxLimit of None \<Rightarrow> True
      | Some ml \<Rightarrow> valueOf (endOf_day lastDay) < valueOf (endOf_day ml)) \<and>
     (sd = Right \<or> \<not> cr_linkedCalendars cr \<or> cr_singleDatePicker cr)"

text \<open>The header cells of the two arrows; the listeners are bound to \<^verbatim>\<open>.prev\<close> and \<^verbatim>\<open>.next\<close>.\<close>

definition prev_th :: "bool \<Rightarrow> string" where
  \<open>prev_th available =
     (if available then ''<th class="prev available"><span></span></th>'' else ''<th></th>'')\<close>

definition next_th :: "bool \<Rightarrow> string" where
  \<open>next_th available =
     (if available then ''<th class="next available"><span></span></th>'' else ''<th></th>'')\<close>

definition isDisabled ::
  "CalendarRenderer \<Rightarrow> DateTime option \<Rightarrow> DateTime option \<Rightarrow> DateTime \<Rightarrow> bool" where
  "isDisabled cr minLimit maxLimit date \<longleftrightarrow>
     (case minLimit of None \<Rightarrow> False
      | Some ml \<Rightarrow> valueOf (startOf_day date) < valueOf (startOf_day ml)) \<or>
     (case maxLimit of None \<Rightarrow> False
      | Some ml \<Rightarrow> valueOf (endOf_day date) > valueOf (endOf_day ml)) \<or>
     cr_isInvalidDate cr date"

text \<open>
  The classes pushed for one cell before the custom ones: \<open>today\<close> is
  \<^verbatim>\<open>DateTime.local()\<close> and \<open>ref\<close> is \<^verbatim>\<open>calendar[1][1]\<close>.
\<close>

definition base_classes ::
  "CalendarRenderer \<Rightarrow> DateTime \<Rightarrow> DateTime option \<Rightarrow> DateTime option \<Rightarrow>
   DateTime \<Rightarrow> DateTime option \<Rightarrow> DateTime \<Rightarrow> DateTime \<Rightarrow> string list" where
  "base_classes cr today minLimit maxLimit start end ref date =
     (if hasSame_day date today then [''today''] else []) @
     (if weekday date = 6 \<or> weekday date = 7 then [''weekend''] else []) @
     (if month date \<noteq> month ref then [''off'', ''ends''] else []) @
     (case minLimit of None \<Rightarrow> []
      | Some ml \<Rightarrow>
          if valueOf (startOf_day date) < valueOf (startOf_day ml)
          then [''off'', ''disabled''] else []) @
     (case maxLimit of None \<Rightarrow> []
      | Some ml \<Rightarrow>
          if valueOf (endOf_day date) > valueOf (endOf_day ml)
          then [''off'', ''disabled''] else []) @
     (if cr_isInvalidDate cr date then [''off'', ''disabled''] else []) @
     (if hasSame_day date start then [''active'', ''start-date''] else []) @
     (case end of None \<Rightarrow> []
      | Some e \<Rightarrow> if hasSame_day date e then [''active'', ''end-date''] else []) @
     (case end of None \<Rightarrow> []
      | Some e \<Rightarrow>
          if valueOf date > valueOf (endOf_day start) \<and> valueOf date < valueOf (startOf_day e)
          then [''in-range''] else [])"

definition custom_classes :: "custom \<Rightarrow> string list" where
  "custom_classes c = (case c of NoCustom \<Rightarrow> [] | OneClass x \<Rightarrow> [x] | ManyClasses xs \<Rightarrow> xs)"

definition td_classes ::
  "CalendarRenderer \<Rightarrow> DateTime \<Rightarrow> DateTime option \<Rightarrow> DateTime option \<Rightarrow>
   DateTime \<Rightarrow> DateTime option \<Rightarrow> DateTime \<Rightarrow> DateTime \<Rightarrow> string list" where
  "td_classes cr today minLimit maxLimit start end ref date =
     base_classes cr today minLimit maxLimit start end ref date @
     custom_classes (cr_isCustomDate cr date) @
     (if \<not> isDisabled cr minLimit maxLimit date then [''available''] else [])"

record rendered =
  r_prev :: string
  r_next :: string
  r_cells :: "string list list list"

text \<open>
  The table of one side: the two arrow cells and the class list of each of the 42 day
  cells. The month title, the dropdowns and the week numbers are text only and are
  left out. \<open>None\<close> is the \<^verbatim>\<open>TypeError\<close> of reading a cell the matrix does not have.
\<close>

definition render ::
  "CalendarRenderer \<Rightarrow> DateTime \<Rightarrow> side \<Rightarrow> CalendarData \<Rightarrow> DateTime \<Rightarrow> DateTime option \<Rightarrow>
   DateTime option \<Rightarrow> DateTime option \<Rightarrow> Duration option \<Rightarrow> rendered option" where
  "render cr today sd calendarData start end minD maxD span =
     (let cal = calendar calendarData;
          minLimit = minDateLimit sd minD start;
          maxLimit = maxDateLimit start end maxD span
      in case (cell cal 0 0, cell cal 5 6, cell cal 1 1) of
           (Some firstDay, Some lastDay, Some ref) \<Rightarrow>
             (case those (map (\<lambda>row. those (map (\<lambda>col.
                      map_option (td_classes cr today minLimit maxLimit start end ref)
                        (cell cal row col)) [0..<7])) [0..<6]) of
                None \<Rightarrow> None
              | Some cells \<Rightarrow>
                  Some \<lparr>r_prev = prev_th (isPrevAvailable cr sd minLimit firstDay),
                        r_next = next_th (isNextAvailable cr sd maxLimit lastDay),
                        r_cells = cells\<rparr>)
         | _ \<Rightarrow> None)"

section \<open>TimePickerRenderer.render\<close>

text \<open>
  The two limits against which the hour, minute, second and AM/PM options are
  disabled: \<^verbatim>\<open>currentMinDate\<close> and the \<^verbatim>\<open>maxDate\<close> parameter after the span is applied.
\<close>

definition currentMinDate :: "side \<Rightarrow> DateTime option \<Rightarrow> DateTime \<Rightarrow> DateTime option" where
  "currentMinDate sd minD start = (if sd = Left then minD else Some start)"

definition timeMaxDate :: "DateTime \<Rightarrow> DateTime option \<Rightarrow> Duration option \<Rightarrow> DateTime option" where
  "timeMaxDate start maxD span =
     (case span of
        None \<Rightarrow> maxD
      | Some sp \<Rightarrow>
          (let maxLimit = plus_duration start sp in
           case maxD of
             None \<Rightarrow> Some maxLimit
           | Some md \<Rightarrow> if valueOf maxLimit < valueOf md then Some maxLimit else Some md))"

record time_limits =
  tl_side :: side
  tl_selected :: DateTime
  tl_min :: "DateTime option"
  tl_max :: "DateTime option"

text \<open>
  What one call of \<^verbatim>\<open>TimePickerRenderer.render\<close> works with: every hour, minute and
  second option and the two AM/PM options are disabled by comparison with \<open>tl_min\<close>
  and \<open>tl_max\<close>. The call receives no end date.
\<close>

definition timePickerRender ::
  "side \<Rightarrow> DateTime \<Rightarrow> DateTime \<Rightarrow> DateTime option \<Rightarrow> DateTime option \<Rightarrow> Duration option \<Rightarrow>
   time_limits" where
  "timePickerRender sd selected start minD maxD span =
     \<lparr>tl_side = sd, tl_selected = selected, tl_min = currentMinDate sd minD start,
      tl_max = timeMaxDate start maxD span\<rparr>"

section \<open>The DateRangePicker\<close>

datatype error = TypeError

text \<open>
  What the picker sends out: a call of the user's callback with the two dates and the
  chosen label, and the custom events dispatched on the element.
\<close>

datatype event = Callback DateTime DateTime "string option" | Dispatch string

record config =
  autoApply :: bool
  singleDatePicker :: bool
  timePicker :: bool
  timePickerSeconds :: bool
  timePicker24Hour :: bool
  linkedCalendars :: bool
  alwaysShowCalendars :: bool
  showCustomRangeLabel :: bool
  autoUpdateInput :: bool
  elementIsInput :: bool
  customRangeLabel :: string
  locale_firstDay :: int
  minDate :: "DateTime option"
  maxDate :: "DateTime option"
  maxSpan :: "Duration option"

text \<open>
  The fields of the picker that its commands read and write. \<open>endDate = None\<close> is the
  \<^verbatim>\<open>null\<close> end date of a selection in progress; \<open>ranges\<close> lists the presets in the
  order in which the object enumerates them; \<open>showCalendar\<close> and \<open>applyDisabled\<close> are
  the \<^verbatim>\<open>show-calendar\<close> class of the container and the \<^verbatim>\<open>disabled\<close> property of the
  apply button; \<open>emitted\<close> collects the events, the latest last.
\<close>

record picker =
  cfg :: config
  ranges :: "(string \<times> DateTime \<times> DateTime) list"
  startDate :: DateTime
  endDate :: "DateTime option"
  oldStartDate :: DateTime
  oldEndDate :: DateTime
  chosenLabel :: "string option"
  isShowing :: bool
  leftCalendar :: CalendarData
  rightCalendar :: CalendarData
  showCalendar :: bool
  applyDisabled :: bool
  emitted :: "event list"

text \<open>
  A command returns the picker as it leaves it and the exception that ended it, if any:
  the assignments made before a \<^verbatim>\<open>TypeError\<close> stay.
\<close>

type_synonym outcome = "picker \<times> error option"

definition ok :: "picker \<Rightarrow> outcome" where
  "ok st = (st, None)"

definition throw :: "picker \<Rightarrow> outcome" where
  "throw st = (st, Some TypeError)"

definition andThen :: "outcome \<Rightarrow> (picker \<Rightarrow> outcome) \<Rightarrow> outcome" where
  "andThen r f = (case r of (st, None) \<Rightarrow> f st | (st, Some e) \<Rightarrow> (st, Some e))"

definition emit :: "event \<Rightarrow> picker \<Rightarrow> picker" where
  "emit ev st = st\<lparr>emitted := emitted st @ [ev]\<rparr>"

text \<open>
  \<^verbatim>\<open>updateRanges\<close>: without a time picker a preset is stored from the start of its
  first day to the end of its last.
\<close>

definition updateRanges ::
  "bool \<Rightarrow> (string \<times> DateTime \<times> DateTime) list \<Rightarrow> (string \<times> DateTime \<times> DateTime) list" where
  "updateRanges tp newRanges =
     map (\<lambda>(label, start, end).
            (label, if tp then start else startOf_day start, if tp then end else endOf_day end))
       newRanges"

text \<open>
  \<^verbatim>\<open>updateElement\<close> writes the text of the input element, which is not part of the
  model; what remains is its \<^verbatim>\<open>this.endDate.toFormat\<close> on a missing end date.
\<close>

definition updateElement :: "picker \<Rightarrow> outcome" where
  "updateElement st =
     (if elementIsInput (cfg st) \<and> autoUpdateInput (cfg st) then
        (if \<not> singleDatePicker (cfg st) then
           (case endDate st of None \<Rightarrow> throw st | Some e \<Rightarrow> ok st)
         else ok st)
      else ok st)"

definition updateMonthsInView :: "picker \<Rightarrow> picker" where
  "updateMonthsInView st =
     (let st1 =
        (case endDate st of
           None \<Rightarrow> st
         | Some e \<Rightarrow>
             (let l = (startDate st)\<lparr>day := 2\<rparr>;
                  r = (if \<not> linkedCalendars (cfg st) \<and>
                          (month e \<noteq> month (startDate st) \<or> year e \<noteq> year (startDate st))
                       then e\<lparr>day := 2\<rparr>
                       else plus_months ((startDate st)\<lparr>day := 2\<rparr>) 1)
              in st\<lparr>leftCalendar := (leftCalendar st)\<lparr>cal_month := l\<rparr>,
                    rightCalendar := (rightCalendar st)\<lparr>cal_month := r\<rparr>\<rparr>))
      in case maxDate (cfg st1) of
           None \<Rightarrow> st1
         | Some md \<Rightarrow>
             if linkedCalendars (cfg st1) \<and> \<not> singleDatePicker (cfg st1) \<and>
                valueOf (cal_month (rightCalendar st1)) > valueOf md
             then st1\<lparr>rightCalendar := (rightCalendar st1)\<lparr>cal_month := md\<lparr>day := 2\<rparr>\<rparr>,
                      leftCalendar :=
                        (leftCalendar st1)\<lparr>cal_month := plus_months (md\<lparr>day := 2\<rparr>) (- 1)\<rparr>\<rparr>
             else st1)"

text \<open>\<^verbatim>\<open>setStartDate\<close> and \<^verbatim>\<open>setEndDate\<close>, called with a \<^verbatim>\<open>DateTime\<close>.\<close>

definition setStartDate :: "picker \<Rightarrow> DateTime \<Rightarrow> outcome" where
  "setStartDate st newStartDate =
     (let st1 = st\<lparr>startDate := newStartDate\<rparr>;
          st2 = (if \<not> timePicker (cfg st1) then st1\<lparr>startDate := startOf_day (startDate st1)\<rparr>
                 else st1)
      in andThen (if \<not> isShowing st2 then updateElement st2 else ok st2)
           (\<lambda>s. ok (updateMonthsInView s)))"

definition setEndDate :: "picker \<Rightarrow> DateTime \<Rightarrow> outcome" where
  "setEndDate st newEndDate =
     (let st1 = st\<lparr>endDate := Some newEndDate\<rparr>;
          st2 = (if \<not> timePicker (cfg st1) then st1\<lparr>endDate := Some (endOf_day newEndDate)\<rparr>
                 else st1)
      in andThen (if \<not> isShowing st2 then updateElement st2 else ok st2)
           (\<lambda>s. ok (updateMonthsInView s)))"

definition hide :: "picker \<Rightarrow> outcome" where
  "hide st =
     (if \<not> isShowing st then ok st
      else
        (let st1 = (case endDate st of
                      None \<Rightarrow> st\<lparr>startDate := oldStartDate st, endDate := Some (oldEndDate st)\<rparr>
                    | Some e \<Rightarrow> st)
         in case endDate st1 of
              None \<Rightarrow> throw st1
            | Some e \<Rightarrow>
                (let st2 = (if \<not> equals (startDate st1) (oldStartDate st1) \<or>
                               \<not> equals e (oldEndDate st1)
                            then emit (Callback (startDate st1) e (chosenLabel st1)) st1
                            else st1)
                 in andThen (updateElement st2)
                      (\<lambda>s. ok (emit (Dispatch ''hide.daterangepicker'') (s\<lparr>isShowing := False\<rparr>))))))"

text \<open>
  \<^verbatim>\<open>calculateChosenLabel\<close>: the first preset, the custom label apart, whose two dates fall
  on the days of the selection. \<^verbatim>\<open>this.endDate.hasSame\<close> is reached only when the
  start matches, and raises when there is no end date.
\<close>

fun scanRanges ::
  "string \<Rightarrow> DateTime \<Rightarrow> DateTime option \<Rightarrow> (string \<times> DateTime \<times> DateTime) list \<Rightarrow>
   error + string option" where
  "scanRanges custom start end [] = Inr None"
| "scanRanges custom start end ((rangeLabel, r0, r1) # rest) =
     (if rangeLabel = custom then scanRanges custom start end rest
      else if hasSame_day start r0 then
        (case end of
           None \<Rightarrow> Inl TypeError
         | Some e \<Rightarrow> if hasSame_day e r1 then Inr (Some rangeLabel)
                     else scanRanges custom start end rest)
      else scanRanges custom start end rest)"

definition calculateChosenLabel :: "picker \<Rightarrow> outcome" where
  "calculateChosenLabel st =
     (case scanRanges (customRangeLabel (cfg st)) (startDate st) (endDate st) (ranges st) of
        Inl e \<Rightarrow> (st, Some e)
      | Inr found \<Rightarrow>
          ok (st\<lparr>chosenLabel :=
                    (case found of
                       Some l \<Rightarrow> Some l
                     | None \<Rightarrow> if showCustomRangeLabel (cfg st)
                               then Some (customRangeLabel (cfg st)) else None)\<rparr>))"

text \<open>
  \<^verbatim>\<open>updateCalendars\<close> rebuilds the two matrices, renders them (the rendering writes to
  the page only) and recomputes the chosen label.
\<close>

definition updateCalendars :: "picker \<Rightarrow> outcome" where
  "updateCalendars st =
     (case buildCalendar (locale_firstDay (cfg st)) (cal_month (leftCalendar st)) of
        None \<Rightarrow> throw st
      | Some lcal \<Rightarrow>
          (let st1 = st\<lparr>leftCalendar := (leftCalendar st)\<lparr>calendar := lcal\<rparr>\<rparr> in
           case buildCalendar (locale_firstDay (cfg st1)) (cal_month (rightCalendar st1)) of
             None \<Rightarrow> throw st1
           | Some rcal \<Rightarrow>
               calculateChosenLabel (st1\<lparr>rightCalendar := (rightCalendar st1)\<lparr>calendar := rcal\<rparr>\<rparr>)))"

definition updateFormInputs :: "picker \<Rightarrow> picker" where
  "updateFormInputs st =
     (case endDate st of
        None \<Rightarrow> st\<lparr>applyDisabled := True\<rparr>
      | Some e \<Rightarrow>
          if valueOf (startDate st) < valueOf e \<or> hasSame_millisecond (startDate st) e
          then st\<lparr>applyDisabled := False\<rparr>
          else st\<lparr>applyDisabled := True\<rparr>)"

text \<open>
  \<^verbatim>\<open>updateView\<close>; the time pickers and the text of the selection are written to the page
  and leave the picker as it is.
\<close>

definition updateView :: "picker \<Rightarrow> outcome" where
  "updateView st =
     andThen (updateCalendars (updateMonthsInView st)) (\<lambda>s. ok (updateFormInputs s))"

definition show_picker :: "picker \<Rightarrow> outcome" where
  "show_picker st =
     (if isShowing st then ok st
      else
        (let st1 = st\<lparr>oldStartDate := startDate st\<rparr> in
         case endDate st1 of
           None \<Rightarrow> throw st1
         | Some e \<Rightarrow>
             andThen (updateView (st1\<lparr>oldEndDate := e\<rparr>))
               (\<lambda>s. ok (emit (Dispatch ''show.daterangepicker'') (s\<lparr>isShowing := True\<rparr>)))))"

definition toggle :: "picker \<Rightarrow> outcome" where
  "toggle st = (if isShowing st then hide st else show_picker st)"

definition clickApply :: "picker \<Rightarrow> outcome" where
  "clickApply st = andThen (hide st) (\<lambda>s. ok (emit (Dispatch ''apply.daterangepicker'') s))"

definition clickCancel :: "picker \<Rightarrow> outcome" where
  "clickCancel st =
     (let st1 = st\<lparr>startDate := oldStartDate st\<rparr>;
          st2 = st1\<lparr>endDate := Some (oldEndDate st1)\<rparr>
      in andThen (hide st2) (\<lambda>s. ok (emit (Dispatch ''cancel.daterangepicker'') s)))"

text \<open>\<^verbatim>\<open>outsideClick\<close> for a target outside the picker and its element, and \<^verbatim>\<open>keydown\<close>.\<close>

definition outsideClick :: "picker \<Rightarrow> outcome" where
  "outsideClick st =
     andThen (hide st) (\<lambda>s. ok (emit (Dispatch ''outsideClick.daterangepicker'') s))"

definition keydown :: "picker \<Rightarrow> string \<Rightarrow> outcome" where
  "keydown st key =
     (if key = ''Tab'' \<or> key = ''Enter'' \<or> key = ''Escape'' then hide st else ok st)"

definition clickRange :: "picker \<Rightarrow> string \<Rightarrow> outcome" where
  "clickRange st label =
     (let st1 = st\<lparr>chosenLabel := Some label\<rparr> in
      if label = customRangeLabel (cfg st1) then ok (st1\<lparr>showCalendar := True\<rparr>)
      else
        (case map_of (ranges st1) label of
           None \<Rightarrow> throw st1
         | Some (d0, d1) \<Rightarrow>
             andThen (setStartDate st1 d0)
               (\<lambda>s. andThen (setEndDate s d1)
                  (\<lambda>s. clickApply
                          (if \<not> alwaysShowCalendars (cfg s) then s\<lparr>showCalendar := False\<rparr>
                           else s)))))"

definition clickPrev :: "picker \<Rightarrow> side \<Rightarrow> outcome" where
  "clickPrev st sd =
     updateCalendars
       (if sd = Left then
          (let st1 = st\<lparr>leftCalendar :=
                          (leftCalendar st)\<lparr>cal_month := plus_months (cal_month (leftCalendar st)) (- 1)\<rparr>\<rparr>
           in if linkedCalendars (cfg st1)
              then st1\<lparr>rightCalendar :=
                         (rightCalendar st1)\<lparr>cal_month := plus_months (cal_month (rightCalendar st1)) (- 1)\<rparr>\<rparr>
              else st1)
        else st\<lparr>rightCalendar :=
                  (rightCalendar st)\<lparr>cal_month := plus_months (cal_month (rightCalendar st)) (- 1)\<rparr>\<rparr>)"

definition clickNext :: "picker \<Rightarrow> side \<Rightarrow> outcome" where
  "clickNext st sd =
     updateCalendars
       (if sd = Left then
          st\<lparr>leftCalendar :=
               (leftCalendar st)\<lparr>cal_month := plus_months (cal_month (leftCalendar st)) 1\<rparr>\<rparr>
        else
          (let st1 = st\<lparr>rightCalendar :=
                          (rightCalendar st)\<lparr>cal_month := plus_months (cal_month (rightCalendar st)) 1\<rparr>\<rparr>
           in if linkedCalendars (cfg st1)
              then st1\<lparr>leftCalendar :=
                         (leftCalendar st1)\<lparr>cal_month := plus_months (cal_month (leftCalendar st1)) 1\<rparr>\<rparr>
              else st1))"

text \<open>
  \<^verbatim>\<open>monthOrYearChanged\<close> with the values of the two selects: months count from 0 there.
\<close>

definition monthOrYearChanged :: "picker \<Rightarrow> side \<Rightarrow> int \<Rightarrow> int \<Rightarrow> outcome" where
  "monthOrYearChanged st sd monthValue yearValue =
     (let m = monthValue + 1;
          newDate = DateTime_local yearValue m 1
      in updateCalendars
           (if sd = Left then
              (let st1 = st\<lparr>leftCalendar := (leftCalendar st)\<lparr>cal_month := newDate\<lparr>day := 2\<rparr>\<rparr>\<rparr>
               in if linkedCalendars (cfg st1)
                  then st1\<lparr>rightCalendar :=
                             (rightCalendar st1)\<lparr>cal_month := plus_months (newDate\<lparr>day := 2\<rparr>) 1\<rparr>\<rparr>
                  else st1)
            else
              (let st1 = st\<lparr>rightCalendar := (rightCalendar st)\<lparr>cal_month := newDate\<lparr>day := 2\<rparr>\<rparr>\<rparr>
               in if linkedCalendars (cfg st1)
                  then st1\<lparr>leftCalendar :=
                             (leftCalendar st1)\<lparr>cal_month := plus_months (newDate\<lparr>day := 2\<rparr>) (- 1)\<rparr>\<rparr>
                  else st1)))"

text \<open>\<^verbatim>\<open>renderTimePickers\<close>: the two calls, for the left and for the right calendar.\<close>

definition renderTimePickers :: "picker \<Rightarrow> time_limits list" where
  "renderTimePickers st =
     [timePickerRender Left (startDate st) (startDate st) (minDate (cfg st)) (maxDate (cfg st))
        (maxSpan (cfg st)),
      (case endDate st of
         Some e \<Rightarrow>
           timePickerRender Right e (startDate st) (Some (startDate st)) (maxDate (cfg st))
             (maxSpan (cfg st))
       | None \<Rightarrow>
           timePickerRender Right (cal_month (rightCalendar st)) (startDate st)
             (Some (startDate st)) (maxDate (cfg st)) (maxSpan (cfg st)))]"

text \<open>
  The calendar renderer of a picker: the constructor passes it \<^verbatim>\<open>this.linkedCalendars\<close>,
  \<^verbatim>\<open>this.singleDatePicker\<close> and the two predicates of the options.
\<close>

definition calendarRenderer ::
  "picker \<Rightarrow> (DateTime \<Rightarrow> bool) \<Rightarrow> (DateTime \<Rightarrow> custom) \<Rightarrow> CalendarRenderer" where
  "calendarRenderer st isInvalidDate isCustomDate =
     \<lparr>cr_linkedCalendars = linkedCalendars (cfg st),
      cr_singleDatePicker = singleDatePicker (cfg st),
      cr_isInvalidDate = isInvalidDate, cr_isCustomDate = isCustomDate\<rparr>"

text \<open>\<^verbatim>\<open>updateCalendars\<close> calls \<open>render\<close> for the two sides with the fields of the picker.\<close>

definition renderCalendar :: "CalendarRenderer \<Rightarrow> DateTime \<Rightarrow> picker \<Rightarrow> side \<Rightarrow> rendered option" where
  "renderCalendar cr today st sd =
     render cr today sd (if sd = Left then leftCalendar st else rightCalendar st)
       (startDate st) (endDate st) (minDate (cfg st)) (maxDate (cfg st)) (maxSpan (cfg st))"

text \<open>
  The navigation commands of the page. A handler that raises leaves the picker as it
  is at that point, and the next command runs on it.
\<close>

datatype command = Prev side | Next side | MonthOrYear side int int

definition apply_command :: "picker \<Rightarrow> command \<Rightarrow> outcome" where
  "apply_command st c =
     (case c of
        Prev sd \<Rightarrow> clickPrev st sd
      | Next sd \<Rightarrow> clickNext st sd
      | MonthOrYear sd monthValue yearValue \<Rightarrow> monthOrYearChanged st sd monthValue yearValue)"

fun run_commands :: "picker \<Rightarrow> command list \<Rightarrow> picker" where
  "run_commands st [] = st"
| "run_commands st (c # cs) = run_commands (fst (apply_command st c)) cs"

text \<open>
  A cell of the page: the calendar it sits in, its row and column (its
  \<^verbatim>\<open>data-title\<close>) and its class list.
\<close>

record td =
  td_isLeft :: bool
  td_row :: nat
  td_col :: nat
  td_classList :: "string list"

text \<open>The class list of a cell is its list of tokens, each of them once.\<close>

definition classList_contains :: "string list \<Rightarrow> string \<Rightarrow> bool" where
  "classList_contains cl c \<longleftrightarrow> c \<in> set cl"

definition classList_add :: "string list \<Rightarrow> string \<Rightarrow> string list" where
  "classList_add cl c = (if c \<in> set cl then cl else cl @ [c])"

definition classList_remove :: "string list \<Rightarrow> string \<Rightarrow> string list" where
  "classList_remove cl c = filter (\<lambda>x. x \<noteq> c) cl"

definition lookup_cell :: "picker \<Rightarrow> bool \<Rightarrow> nat \<Rightarrow> nat \<Rightarrow> DateTime option" where
  "lookup_cell st isLeft row col =
     cell (calendar (if isLeft then leftCalendar st else rightCalendar st)) row col"

text \<open>The test under which \<^verbatim>\<open>hoverDate\<close> adds \<^verbatim>\<open>in-range\<close> to the cell of date \<open>d\<close>.\<close>

definition hover_in_range :: "picker \<Rightarrow> DateTime \<Rightarrow> DateTime \<Rightarrow> bool" where
  "hover_in_range st date d \<longleftrightarrow>
     (valueOf d > valueOf (endOf_day (startDate st)) \<and> valueOf d < valueOf (startOf_day date)) \<or>
     hasSame_day d date"

text \<open>
  The \<^verbatim>\<open>forEach\<close> over the day cells; a cell that one of the matrices does not have
  ends it with a \<^verbatim>\<open>TypeError\<close>, the cells before it keep their new classes.
\<close>

fun hover_tds :: "picker \<Rightarrow> DateTime option \<Rightarrow> td list \<Rightarrow> td list \<times> error option" where
  "hover_tds st date [] = ([], None)"
| "hover_tds st date (t # ts) =
     (if classList_contains (td_classList t) ''week'' then
        (let (ts', err) = hover_tds st date ts in (t # ts', err))
      else
        (case (lookup_cell st (td_isLeft t) (td_row t) (td_col t), date) of
           (Some d, Some date') \<Rightarrow>
             (let t' = t\<lparr>td_classList :=
                           (if hover_in_range st date' d
                            then classList_add (td_classList t) ''in-range''
                            else classList_remove (td_classList t) ''in-range'')\<rparr>;
                  (ts', err) = hover_tds st date ts
              in (t' # ts', err))
         | _ \<Rightarrow> (t # ts, Some TypeError)))"

definition hoverDate :: "picker \<Rightarrow> td \<Rightarrow> td list \<Rightarrow> picker \<times> td list \<times> error option" where
  "hoverDate st target tds =
     (if \<not> classList_contains (td_classList target) ''available'' \<or> endDate st \<noteq> None
      then (st, tds, None)
      else
        (let (tds', err) =
               hover_tds st (lookup_cell st (td_isLeft target) (td_row target) (td_col target)) tds
         in (st, tds', err)))"

text \<open>The values of the time selects of one calendar.\<close>

record time_selects =
  hourselect :: int
  minuteselect :: int
  secondselect :: int
  ampmselect :: string

definition selected_hour :: "bool \<Rightarrow> time_selects \<Rightarrow> int" where
  "selected_hour h24 sel =
     (let h = hourselect sel in
      if \<not> h24 then
        (let h1 = (if ampmselect sel = ''AM'' \<and> hourselect sel = 12 then 0 else h)
         in if ampmselect sel = ''PM'' \<and> hourselect sel \<noteq> 12 then hourselect sel + 12 else h1)
      else h)"

definition selected_second :: "bool \<Rightarrow> time_selects \<Rightarrow> int" where
  "selected_second withSeconds sel = (if withSeconds then secondselect sel else 0)"

text \<open>
  \<^verbatim>\<open>clickDate\<close> from the point where \<open>date\<close> is known: the choice between a new start
  and the end of the range, the collapse of single-date mode, and the redraw.
\<close>

definition chooseDate :: "picker \<Rightarrow> DateTime \<Rightarrow> outcome" where
  "chooseDate st date =
     (let r1 =
        (if endDate st \<noteq> None \<or> valueOf date < valueOf (startOf_day (startDate st))
         then setStartDate (st\<lparr>endDate := None\<rparr>) date
         else andThen (setEndDate st date)
                (\<lambda>s. if autoApply (cfg s) then andThen (calculateChosenLabel s) clickApply
                      else ok s));
          r2 =
        andThen r1
          (\<lambda>s. if singleDatePicker (cfg s)
                then andThen (setEndDate s (startDate s))
                       (\<lambda>s. if \<not> timePicker (cfg s) \<and> autoApply (cfg s) then clickApply s
                             else ok s)
                else ok s)
      in andThen r2 updateView)"

definition clickDate :: "picker \<Rightarrow> td \<Rightarrow> time_selects \<Rightarrow> outcome" where
  "clickDate st target sel =
     (if \<not> classList_contains (td_classList target) ''available'' then ok st
      else
        (let cal = calendar (if td_isLeft target then leftCalendar st else rightCalendar st) in
         if \<not> td_row target < length cal then throw st
         else if \<not> td_col target < length (cal ! td_row target) then
           (if timePicker (cfg st) then throw st
            else if endDate st \<noteq> None then throw (st\<lparr>endDate := None\<rparr>)
            else throw st)
         else
           (let date = cal ! td_row target ! td_col target;
                date' =
                  (if timePicker (cfg st)
                   then date\<lparr>hour := selected_hour (timePicker24Hour (cfg st)) sel,
                              minute := minuteselect sel,
                              second := selected_second (timePickerSeconds (cfg st)) sel\<rparr>
                   else date)
            in chooseDate st date')))"

definition timeChanged :: "picker \<Rightarrow> side \<Rightarrow> time_selects \<Rightarrow> outcome" where
  "timeChanged st sd sel =
     (let h = selected_hour (timePicker24Hour (cfg st)) sel;
          m = minuteselect sel;
          s = selected_second (timePickerSeconds (cfg st)) sel
      in if sd = Left then
           (let st1 = st\<lparr>startDate := (startDate st)\<lparr>hour := h, minute := m, second := s\<rparr>\<rparr>;
                st2 = (if singleDatePicker (cfg st1) then st1\<lparr>endDate := Some (startDate st1)\<rparr>
                       else st1)
            in andThen (updateCalendars st2) (\<lambda>s. ok (updateFormInputs s)))
         else
           (case endDate st of
              None \<Rightarrow> throw st
            | Some e \<Rightarrow>
                andThen (updateCalendars (st\<lparr>endDate := Some (e\<lparr>hour := h, minute := m, second := s\<rparr>)\<rparr>))
                  (\<lambda>s. ok (updateFormInputs s))))"

section \<open>Values used in the statements\<close>

text \<open>The grid that starts at \<open>c\<close>: 42 days in a row, with the time \<open>h:m:s\<close>.\<close>

definition grid_from :: "DateTime \<Rightarrow> int \<Rightarrow> int \<Rightarrow> int \<Rightarrow> matrix" where
  "grid_from c h m s =
     map (\<lambda>r. map (\<lambda>k. set_hms (plus_days c (int (7 * r + k))) h m s) [0..<7]) [0..<6]"

definition anchor_jan_2023 :: DateTime where
  "anchor_jan_2023 =
     \<lparr>year = 2023, month = 1, day = 2, hour = 9, minute = 30, second = 0, millisecond = 0\<rparr>"

definition renderer0 :: CalendarRenderer where
  "renderer0 = \<lparr>cr_linkedCalendars = True, cr_singleDatePicker = False,
                 cr_isInvalidDate = (\<lambda>d. False), cr_isCustomDate = (\<lambda>d. NoCustom)\<rparr>"

definition march_2024 :: CalendarData where
  "march_2024 = \<lparr>cal_month = DateTime_local 2024 3 2,
                  calendar = grid_from (DateTime_local 2024 2 26) 0 0 0\<rparr>"

text \<open>
  The navigation commands whose controls a linked picker renders: the prev arrow of the
  left calendar, the next arrow of the right calendar and the two pairs of dropdowns,
  whose month options have the values 0 to 11.
\<close>

fun linked_control :: "command \<Rightarrow> bool" where
  "linked_control (Prev sd) = (sd = Left)"
| "linked_control (Next sd) = (sd = Right)"
| "linked_control (MonthOrYear sd monthValue yearValue) = (0 \<le> monthValue \<and> monthValue < 12)"

text \<open>The right anchor is the left anchor plus one month, both on day 2.\<close>

definition anchors_linked :: "picker \<Rightarrow> bool" where
  "anchors_linked st \<longleftrightarrow>
     day (cal_month (leftCalendar st)) = 2 \<and>
     cal_month (rightCalendar st) = plus_months (cal_month (leftCalendar st)) 1"

definition april_2024 :: CalendarData where
  "april_2024 = \<lparr>cal_month = DateTime_local 2024 4 2,
                  calendar = grid_from (DateTime_local 2024 4 1) 0 0 0\<rparr>"

definition config0 :: config where
  "config0 =
     \<lparr>autoApply = False, singleDatePicker = False, timePicker = False,
      timePickerSeconds = False, timePicker24Hour = False, linkedCalendars = True,
      alwaysShowCalendars = False, showCustomRangeLabel = True, autoUpdateInput = True,
      elementIsInput = True, customRangeLabel = ''Custom Range'', locale_firstDay = 1,
      minDate = None, maxDate = None, maxSpan = None\<rparr>"

text \<open>A picker that shows 10 to 15 March 2024, as chosen and as last applied.\<close>

definition picker0 :: picker where
  "picker0 =
     \<lparr>cfg = config0, ranges = [],
      startDate = DateTime_local 2024 3 10,
      endDate = Some (endOf_day (DateTime_local 2024 3 15)),
      oldStartDate = DateTime_local 2024 3 10,
      oldEndDate = endOf_day (DateTime_local 2024 3 15),
      chosenLabel = None, isShowing = True,
      leftCalendar = march_2024, rightCalendar = april_2024,
      showCalendar = True, applyDisabled = False, emitted = []\<rparr>"

definition seven_days :: Duration where
  "seven_days = \<lparr>years = 0, months = 0, weeks = 0, days = 7, hours = 0, minutes = 0,
                  seconds = 0, milliseconds = 0\<rparr>"

text \<open>What \<open>hoverDate\<close> does to one cell when the hovered date is \<open>date\<close>.\<close>

definition hover_td :: "picker \<Rightarrow> DateTime \<Rightarrow> td \<Rightarrow> td" where
  "hover_td st date t =
     (case lookup_cell st (td_isLeft t) (td_row t) (td_col t) of
        None \<Rightarrow> t
      | Some d \<Rightarrow>
          if classList_contains (td_classList t) ''week'' then t
          else t\<lparr>td_classList :=
                   (if hover_in_range st date d
                    then classList_add (td_classList t) ''in-range''
                    else classList_remove (td_classList t) ''in-range'')\<rparr>)"

text \<open>The cell of 14 March 2024 in the left calendar of \<open>picker0\<close>.\<close>

definition td_mar_14 :: td where
  "td_mar_14 = \<lparr>td_isLeft = True, td_row = 2, td_col = 3, td_classList = [''available'']\<rparr>"

text \<open>The picker of \<open>picker0\<close> after 11 to 12 March 2024 has been chosen and not applied.\<close>

definition picker_edited :: picker where
  "picker_edited =
     picker0\<lparr>startDate := DateTime_local 2024 3 11,
             endDate := Some (endOf_day (DateTime_local 2024 3 12))\<rparr>"

text \<open>Two presets, as \<open>updateRanges\<close> stores them for a picker without time picker.\<close>

definition presets0 :: "(string \<times> DateTime \<times> DateTime) list" where
  "presets0 =
     updateRanges False
       [(''First week'', DateTime_local 2024 3 1, DateTime_local 2024 3 7),
        (''Second week'', DateTime_local 2024 3 8, DateTime_local 2024 3 14)]"

text \<open>The label that \<open>calculateChosenLabel\<close> finds for a start and an end date.\<close>

definition matchedLabel :: "picker \<Rightarrow> DateTime \<Rightarrow> string option" where
  "matchedLabel st e = chosenLabel (fst (calculateChosenLabel (st\<lparr>endDate := Some e\<rparr>)))"

text \<open>
  A picker in single-date mode that shows 10 March 2024, the end date being the end of
  that day, and the cell of 20 March 2024 in its left calendar.
\<close>

definition picker_single :: picker where
  "picker_single =
     picker0\<lparr>cfg := config0\<lparr>singleDatePicker := True\<rparr>,
             endDate := Some (endOf_day (DateTime_local 2024 3 10)),
             oldEndDate := endOf_day (DateTime_local 2024 3 10)\<rparr>"

definition td_mar_20 :: td where
  "td_mar_20 = \<lparr>td_isLeft = True, td_row = 3, td_col = 2, td_classList = [''available'']\<rparr>"

definition no_time :: time_selects where
  "no_time = \<lparr>hourselect = 12, minuteselect = 0, secondselect = 0, ampmselect = ''AM''\<rparr>"

text \<open>
  A picker with unlinked calendars that shows 10 March to 15 April 2024. Its right
  calendar is anchored at the end date, so its cells carry the time 23:59:59; the cell
  of row 2 and column 3 is 18 April.
\<close>

definition april_2024_late :: CalendarData where
  "april_2024_late =
     \<lparr>cal_month = (endOf_day (DateTime_local 2024 4 15))\<lparr>day := 2\<rparr>,
      calendar = grid_from (DateTime_local 2024 4 1) 23 59 59\<rparr>"

definition picker_unlinked :: picker where
  "picker_unlinked =
     picker0\<lparr>cfg := config0\<lparr>linkedCalendars := False\<rparr>,
             endDate := Some (endOf_day (DateTime_local 2024 4 15)),
             oldEndDate := endOf_day (DateTime_local 2024 4 15),
             rightCalendar := april_2024_late\<rparr>"

definition td_apr_18 :: td where
  "td_apr_18 = \<lparr>td_isLeft = False, td_row = 2, td_col = 3, td_classList = [''available'']\<rparr>"

section \<open>Day numbers along the calendar\<close>

text \<open>
  The next calendar day is the next day number: the two views of a date that the model
  uses, its fields and its place on the time line, agree.
\<close>

lemma days_from_civil_next_in_month:
  "days_from_civil y m (d + 1) = days_from_civil y m d + 1"
  by (simp add: days_from_civil_def Let_def)

lemma days_from_civil_year_end:
  "days_from_civil (y + 1) 1 1 = days_from_civil y 12 31 + 1"
  by (simp add: days_from_civil_def Let_def)

lemma days_from_civil_month_end:
  assumes "1 \<le> m" and "m < 12" and "m \<noteq> 2"
  shows "days_from_civil y (m + 1) 1 = days_from_civil y m (daysInMonth y m) + 1"
proof -
  from assms have "m = 1 \<or> m = 3 \<or> m = 4 \<or> m = 5 \<or> m = 6 \<or> m = 7 \<or> m = 8 \<or> m = 9 \<or> m = 10 \<or> m = 11"
    by arith
  then show ?thesis
    by (elim disjE) (simp_all add: days_from_civil_def daysInMonth_def Let_def)
qed



lemma div_step:
  fixes r n :: int
  assumes "0 < n"
  shows "(r + 1) div n - r div n = (if (r + 1) mod n = 0 then 1 else 0)"
proof -
  have r: "r = n * (r div n) + r mod n" by simp
  have b: "0 \<le> r mod n" "r mod n < n" using assms by simp_all
  show ?thesis
  proof (cases "r mod n = n - 1")
    case True
    have e: "r + 1 = n * (r div n + 1) + 0"
      using r True by (simp add: algebra_simps)
    have "(r + 1) div n = r div n + 1"
      by (rule int_div_pos_eq [OF e]) (use assms in simp_all)
    moreover have "(r + 1) mod n = 0"
      by (rule int_mod_pos_eq [OF e]) (use assms in simp_all)
    ultimately show ?thesis by simp
  next
    case False
    have e: "r + 1 = n * (r div n) + (r mod n + 1)"
      using r by (simp add: algebra_simps)
    have lt: "r mod n + 1 < n" using False b by simp
    have "(r + 1) div n = r div n"
      by (rule int_div_pos_eq [OF e]) (use b lt in simp_all)
    moreover have "(r + 1) mod n = r mod n + 1"
      by (rule int_mod_pos_eq [OF e]) (use b lt in simp_all)
    ultimately show ?thesis using b by simp
  qed
qed

lemma mod_400_4: "(q * 400 + k) mod 4 = k mod 4" for q k :: int
proof -
  have "q * 400 + k = k + (q * 100) * 4" by simp
  then show ?thesis by (simp only: mod_mult_self1)
qed

lemma mod_400_100: "(q * 400 + k) mod 100 = k mod 100" for q k :: int
proof -
  have "q * 400 + k = k + (q * 4) * 100" by simp
  then show ?thesis by (simp only: mod_mult_self1)
qed

lemma mod_100_4: "k mod 100 = 0 \<Longrightarrow> k mod 4 = 0" for k :: int
proof -
  assume "k mod 100 = 0"
  then have "100 dvd k" by (simp add: dvd_eq_mod_eq_0)
  moreover have "(4::int) dvd 100" by simp
  ultimately have "4 dvd k" by (rule dvd_trans [rotated])
  then show ?thesis by (simp add: dvd_eq_mod_eq_0)
qed


lemma mod_400_dvd_4: "k mod 400 = 0 \<Longrightarrow> k mod 4 = 0 \<and> k mod 100 = 0" for k :: int
proof -
  assume "k mod 400 = 0"
  then have d: "400 dvd k" by (simp add: dvd_eq_mod_eq_0)
  have "(4::int) dvd 400" "(100::int) dvd 400" by simp_all
  then have "4 dvd k" "100 dvd k" using d by (auto intro: dvd_trans)
  then show ?thesis by (simp add: dvd_eq_mod_eq_0)
qed

lemma march_first:
  fixes q k :: int
  assumes "0 \<le> k" "k < 400"
  shows "days_from_civil (q * 400 + k) 3 1 =
     q * 146097 + (k * 365 + k div 4 - k div 100) - 719468"
proof -
  have d: "(q * 400 + k) div 400 = q"
    by (rule int_div_pos_eq [where r = k]) (use assms in simp_all)
  show ?thesis
    by (simp add: days_from_civil_def Let_def d)
qed

lemma february_day:
  fixes q k :: int
  assumes "0 \<le> k" "k < 400"
  shows "days_from_civil (q * 400 + k + 1) 2 d =
     q * 146097 + (k * 365 + k div 4 - k div 100) + 336 + d - 719468"
proof -
  have d: "(q * 400 + k) div 400 = q"
    by (rule int_div_pos_eq [where r = k]) (use assms in simp_all)
  show ?thesis
    by (simp add: days_from_civil_def Let_def d)
qed


lemma leap_400:
  fixes q k :: int
  assumes "0 < k" "k < 400"
  shows "isLeapYear (q * 400 + k) \<longleftrightarrow> k mod 4 = 0 \<and> k mod 100 \<noteq> 0"
proof -
  have "(q * 400 + k) mod 400 = k"
    by (rule int_mod_pos_eq [where q = q]) (use assms in simp_all)
  then show ?thesis
    using assms by (simp add: isLeapYear_def mod_400_4 mod_400_100)
qed

lemma leap_400_0: "isLeapYear (q * 400)"
  using mod_400_4 [of q 0] mod_400_100 [of q 0] by (simp add: isLeapYear_def)

lemma days_from_civil_february_end:
  "days_from_civil y 3 1 = days_from_civil y 2 (daysInMonth y 2) + 1"
proof -
  define q where "q = (y - 1) div 400"
  define r where "r = (y - 1) mod 400"
  have r: "0 \<le> r" "r < 400" by (simp_all add: r_def)
  have y: "y = q * 400 + r + 1" by (simp add: q_def r_def)
  have feb: "days_from_civil y 2 n =
      q * 146097 + (r * 365 + r div 4 - r div 100) + 336 + n - 719468" for n
    unfolding y using r by (rule february_day)
  show ?thesis
  proof (cases "r = 399")
    case True
    have y': "y = (q + 1) * 400 + 0" using y True by simp
    have "isLeapYear ((q + 1) * 400)" by (rule leap_400_0)
    then have dim: "daysInMonth y 2 = 29" using y' by (simp add: daysInMonth_def)
    have "days_from_civil ((q + 1) * 400 + 0) 3 1 =
        (q + 1) * 146097 + (0 * 365 + 0 div 4 - 0 div 100) - 719468"
      by (rule march_first) simp_all
    then have mar: "days_from_civil y 3 1 = (q + 1) * 146097 - 719468"
      using y' by simp
    show ?thesis
      unfolding dim mar feb True by simp
  next
    case False
    then have r': "0 < r + 1" "r + 1 < 400" using r by simp_all
    have y': "y = q * 400 + (r + 1)" using y by simp
    have mar: "days_from_civil y 3 1 =
        q * 146097 + ((r + 1) * 365 + (r + 1) div 4 - (r + 1) div 100) - 719468"
      unfolding y' by (rule march_first) (use r' in simp_all)
    have leap: "isLeapYear y \<longleftrightarrow> (r + 1) mod 4 = 0 \<and> (r + 1) mod 100 \<noteq> 0"
      unfolding y' using r' by (rule leap_400)
    have s4: "(r + 1) div 4 - r div 4 = (if (r + 1) mod 4 = 0 then 1 else 0)"
      by (rule div_step) simp
    have s100: "(r + 1) div 100 - r div 100 = (if (r + 1) mod 100 = 0 then 1 else 0)"
      by (rule div_step) simp
    show ?thesis
    proof (cases "(r + 1) mod 100 = 0")
      case h: True
      then have f: "(r + 1) mod 4 = 0" by (rule mod_100_4)
      have dim: "daysInMonth y 2 = 28" using leap h by (simp add: daysInMonth_def)
      have a: "(r + 1) div 4 = r div 4 + 1" using s4 f by simp
      have b: "(r + 1) div 100 = r div 100 + 1" using s100 h by simp
      show ?thesis
        unfolding dim mar feb a b by (simp add: algebra_simps)
    next
      case h: False
      have b: "(r + 1) div 100 = r div 100" using s100 h by simp
      show ?thesis
      proof (cases "(r + 1) mod 4 = 0")
        case True
        have dim: "daysInMonth y 2 = 29" using leap h True by (simp add: daysInMonth_def)
        have a: "(r + 1) div 4 = r div 4 + 1" using s4 True by simp
        show ?thesis
          unfolding dim mar feb a b by (simp add: algebra_simps)
      next
        case False
        have dim: "daysInMonth y 2 = 28" using leap False by (simp add: daysInMonth_def)
        have a: "(r + 1) div 4 = r div 4" using s4 False by simp
        show ?thesis
          unfolding dim mar feb a b by (simp add: algebra_simps)
      qed
    qed
  qed
qed

lemma daysInMonth_ge_1: "1 \<le> daysInMonth y m"
  by (simp add: daysInMonth_def)

lemma dayNumber_next_day:
  assumes "valid_date d"
  shows "dayNumber (next_day d) = dayNumber d + 1"
proof (cases "day d < daysInMonth (year d) (month d)")
  case True
  then show ?thesis
    by (simp add: next_day_def dayNumber_def days_from_civil_next_in_month)
next
  case False
  with assms have last: "day d = daysInMonth (year d) (month d)"
    by (simp add: valid_date_def)
  show ?thesis
  proof (cases "month d < 12")
    case True
    show ?thesis
    proof (cases "month d = 2")
      case True
      then show ?thesis
        using False last days_from_civil_february_end [of "year d"]
        by (simp add: next_day_def dayNumber_def)
    next
      case ne: False
      have "days_from_civil (year d) (month d + 1) 1 =
          days_from_civil (year d) (month d) (daysInMonth (year d) (month d)) + 1"
        using assms True ne by (intro days_from_civil_month_end) (simp_all add: valid_date_def)
      then show ?thesis
        using False True last by (simp add: next_day_def dayNumber_def)
    qed
  next
    case dec: False
    with assms have m: "month d = 12" by (simp add: valid_date_def)
    then have "day d = 31" using last by (simp add: daysInMonth_def)
    then show ?thesis
      using False m days_from_civil_year_end [of "year d"]
      by (simp add: next_day_def dayNumber_def)
  qed
qed

lemma valid_date_next_day: "valid_date d \<Longrightarrow> valid_date (next_day d)"
  using daysInMonth_ge_1 [of "year d" "month d + 1"] daysInMonth_ge_1 [of "year d + 1" 1]
  by (auto simp: valid_date_def next_day_def)

lemma valid_date_prev_day: "valid_date d \<Longrightarrow> valid_date (prev_day d)"
  using daysInMonth_ge_1 [of "year d" "month d - 1"]
  by (auto simp: valid_date_def prev_day_def daysInMonth_def)

lemma dayNumber_prev_day:
  assumes "valid_date d"
  shows "dayNumber (prev_day d) = dayNumber d - 1"
proof (cases "1 < day d")
  case True
  then show ?thesis
    using days_from_civil_next_in_month [of "year d" "month d" "day d - 1"]
    by (simp add: prev_day_def dayNumber_def)
next
  case False
  with assms have first: "day d = 1" by (simp add: valid_date_def)
  show ?thesis
  proof (cases "1 < month d")
    case True
    show ?thesis
    proof (cases "month d = 3")
      case True
      then show ?thesis
        using first days_from_civil_february_end [of "year d"]
        by (simp add: prev_day_def dayNumber_def)
    next
      case ne: False
      have "days_from_civil (year d) (month d - 1 + 1) 1 =
          days_from_civil (year d) (month d - 1) (daysInMonth (year d) (month d - 1)) + 1"
        using assms True ne by (intro days_from_civil_month_end) (simp_all add: valid_date_def)
      then show ?thesis
        using True first by (simp add: prev_day_def dayNumber_def)
    qed
  next
    case jan: False
    with assms have m: "month d = 1" by (simp add: valid_date_def)
    show ?thesis
      using first m days_from_civil_year_end [of "year d - 1"]
      by (simp add: prev_day_def dayNumber_def)
  qed
qed

lemma iterate_next_day:
  "valid_date d \<Longrightarrow>
   valid_date (iterate n next_day d) \<and> dayNumber (iterate n next_day d) = dayNumber d + int n"
  by (induction n arbitrary: d) (simp_all add: valid_date_next_day dayNumber_next_day)

lemma iterate_prev_day:
  "valid_date d \<Longrightarrow>
   valid_date (iterate n prev_day d) \<and> dayNumber (iterate n prev_day d) = dayNumber d - int n"
  by (induction n arbitrary: d) (simp_all add: valid_date_prev_day dayNumber_prev_day)

lemma plus_days_valid:
  assumes "valid_date d"
  shows "valid_date (plus_days d n) \<and> dayNumber (plus_days d n) = dayNumber d + n"
  using iterate_next_day [OF assms, of "nat n"] iterate_prev_day [OF assms, of "nat (- n)"]
  by (simp add: plus_days_def)


lemma millisecond_iterate_next_day: "millisecond (iterate n next_day d) = millisecond d"
  by (induction n arbitrary: d) (simp_all add: next_day_def)

lemma millisecond_iterate_prev_day: "millisecond (iterate n prev_day d) = millisecond d"
  by (induction n arbitrary: d) (simp_all add: prev_day_def)

lemma millisecond_plus_days: "millisecond (plus_days d n) = millisecond d"
  by (simp add: plus_days_def millisecond_iterate_next_day millisecond_iterate_prev_day)

lemma valid_date_first: "1 \<le> m \<Longrightarrow> m \<le> 12 \<Longrightarrow> valid_date (DateTime_local y m 1)"
  using daysInMonth_ge_1 [of y m] by (simp add: valid_date_def DateTime_local_def)

lemma valid_date_set_hms: "valid_date (set_hms d h m s) = valid_date d"
  by (simp add: valid_date_def set_hms_def)

lemma dayNumber_set_hms: "dayNumber (set_hms d h m s) = dayNumber d"
  by (simp add: dayNumber_def set_hms_def)

section \<open>The calendar grid\<close>

lemma plus_days_1: "plus_days d 1 = next_day d"
  by (simp add: plus_days_def)

lemma plus_days_nat: "plus_days d (int k) = iterate k next_day d"
  by (simp add: plus_days_def)

lemma build_loop_grid:
  "build_loop 0 0 0 c h m s [[], [], [], [], [], []] = Some (grid_from c h m s)"
  apply (simp add: build_loop.simps put_cell_def plus_days_1 Let_def)
  apply (simp add: grid_from_def plus_days_nat upt_rec)
  apply (simp add: plus_days_def eval_nat_numeral)
  done

lemma buildCalendar_eq:
  "buildCalendar firstDay monthDT =
     Some (grid_from (firstCell monthDT firstDay) (hour monthDT) (minute monthDT) (second monthDT))"
  by (simp add: buildCalendar_def build_loop_grid)

lemma grid_from_length: "length (grid_from c h m s) = 6"
  by (simp add: grid_from_def)

lemma grid_from_row: "r < 6 \<Longrightarrow> length (grid_from c h m s ! r) = 7"
  by (simp add: grid_from_def)

lemma grid_from_cell:
  "r < 6 \<Longrightarrow> k < 7 \<Longrightarrow>
   grid_from c h m s ! r ! k = set_hms (plus_days c (int (7 * r + k))) h m s"
  by (simp add: grid_from_def)

lemma weekday_set_day1:
  "weekday (monthDT\<lparr>day := 1\<rparr>) = weekday (DateTime_local (year monthDT) (month monthDT) 1)"
  by (simp add: weekday_def dayNumber_def DateTime_local_def)

lemma firstCell_eq:
  "firstCell monthDT firstDay =
     plus_days (DateTime_local (year monthDT) (month monthDT) 1)
       (- ((weekday (DateTime_local (year monthDT) (month monthDT) 1) mod 7 - firstDay + 7) mod 7))"
  by (simp add: firstCell_def firstDayOfWeekInLocale_def dayOfWeek_def weekday_set_day1)

lemma march_2024_first:
  "year a = 2024 \<Longrightarrow> month a = 3 \<Longrightarrow> firstCell a 1 = DateTime_local 2024 2 26"
  by (simp add: firstCell_eq weekday_def dayNumber_def days_from_civil_def DateTime_local_def plus_days_def
      eval_nat_numeral prev_day_def daysInMonth_def isLeapYear_def)

lemma march_2024_last:
  "plus_days (DateTime_local 2024 2 26) 41 = DateTime_local 2024 4 7"
  by (simp add: DateTime_local_def plus_days_def
      eval_nat_numeral next_day_def daysInMonth_def isLeapYear_def)

text \<open>
  C5. For every anchor and every first day of the week, \<open>buildCalendar\<close> returns 6 rows
  of 7 cells; the cell of row \<open>r\<close> and column \<open>c\<close> is the day \<open>7 r + c\<close> days after the
  first cell, which is day 1 of the anchor's month minus
  \<open>(weekday(day1) - firstDay + 7) mod 7\<close> days, and carries the hour, minute and second
  of the anchor (its millisecond is 0, that of \<^verbatim>\<open>DateTime.local(year, month, 1)\<close>). For an
  anchor in a month from 1 to 12 the cells are dates of the calendar and their day
  numbers are consecutive. For an anchor in March 2024 and a week that starts on Monday
  the first cell is 26 February 2024 and the last is 7 April 2024.
\<close>

theorem buildCalendar_grid:
  "(\<exists>cal. buildCalendar firstDay monthDT = Some cal \<and> length cal = 6 \<and>
      (\<forall>r<6. length (cal ! r) = 7) \<and>
      (\<forall>r<6. \<forall>c<7.
         cal ! r ! c =
           set_hms
             (plus_days
                (plus_days (DateTime_local (year monthDT) (month monthDT) 1)
                   (- ((weekday (DateTime_local (year monthDT) (month monthDT) 1) mod 7
                        - firstDay + 7) mod 7)))
                (int (7 * r + c)))
             (hour monthDT) (minute monthDT) (second monthDT) \<and>
         hour (cal ! r ! c) = hour monthDT \<and> minute (cal ! r ! c) = minute monthDT \<and>
         second (cal ! r ! c) = second monthDT \<and> millisecond (cal ! r ! c) = 0) \<and>
      (1 \<le> month monthDT \<and> month monthDT \<le> 12 \<longrightarrow>
         (\<forall>r<6. \<forall>c<7.
            valid_date (cal ! r ! c) \<and>
            dayNumber (cal ! r ! c) =
              dayNumber (DateTime_local (year monthDT) (month monthDT) 1)
                - (weekday (DateTime_local (year monthDT) (month monthDT) 1) mod 7
                     - firstDay + 7) mod 7
                + int (7 * r + c)))) \<and>
   (\<forall>a. year a = 2024 \<and> month a = 3 \<longrightarrow>
      (\<exists>cal. buildCalendar 1 a = Some cal \<and>
         year (cal ! 0 ! 0) = 2024 \<and> month (cal ! 0 ! 0) = 2 \<and> day (cal ! 0 ! 0) = 26 \<and>
         year (cal ! 5 ! 6) = 2024 \<and> month (cal ! 5 ! 6) = 4 \<and> day (cal ! 5 ! 6) = 7))"
proof (intro conjI allI impI)
  let ?day1 = "DateTime_local (year monthDT) (month monthDT) 1"
  let ?off = "(weekday ?day1 mod 7 - firstDay + 7) mod 7"
  let ?cal = "grid_from (firstCell monthDT firstDay) (hour monthDT) (minute monthDT)
      (second monthDT)"
  have fc: "firstCell monthDT firstDay = plus_days ?day1 (- ?off)"
    by (rule firstCell_eq)
  have cells: "?cal ! r ! c =
      set_hms (plus_days (plus_days ?day1 (- ?off)) (int (7 * r + c)))
        (hour monthDT) (minute monthDT) (second monthDT)" if "r < 6" "c < 7" for r c
    using that by (simp only: grid_from_cell fc)
  have ms: "millisecond (?cal ! r ! c) = 0" if "r < 6" "c < 7" for r c
    unfolding cells [OF that]
    by (simp add: set_hms_def millisecond_plus_days DateTime_local_def)
  have num: "valid_date (?cal ! r ! c) \<and>
      dayNumber (?cal ! r ! c) = dayNumber ?day1 - ?off + int (7 * r + c)"
    if "r < 6" "c < 7" and m: "1 \<le> month monthDT \<and> month monthDT \<le> 12" for r c
  proof -
    have v1: "valid_date ?day1" using m by (simp add: valid_date_first)
    note a = plus_days_valid [OF v1, of "- ?off"]
    note b = plus_days_valid [OF a [THEN conjunct1], of "int (7 * r + c)"]
    show ?thesis
      unfolding cells [OF that(1,2)] valid_date_set_hms dayNumber_set_hms
      using a b by simp
  qed
  show "\<exists>cal. buildCalendar firstDay monthDT = Some cal \<and> length cal = 6 \<and>
      (\<forall>r<6. length (cal ! r) = 7) \<and>
      (\<forall>r<6. \<forall>c<7.
         cal ! r ! c =
           set_hms
             (plus_days
                (plus_days (DateTime_local (year monthDT) (month monthDT) 1)
                   (- ((weekday (DateTime_local (year monthDT) (month monthDT) 1) mod 7
                        - firstDay + 7) mod 7)))
                (int (7 * r + c)))
             (hour monthDT) (minute monthDT) (second monthDT) \<and>
         hour (cal ! r ! c) = hour monthDT \<and> minute (cal ! r ! c) = minute monthDT \<and>
         second (cal ! r ! c) = second monthDT \<and> millisecond (cal ! r ! c) = 0) \<and>
      (1 \<le> month monthDT \<and> month monthDT \<le> 12 \<longrightarrow>
         (\<forall>r<6. \<forall>c<7.
            valid_date (cal ! r ! c) \<and>
            dayNumber (cal ! r ! c) =
              dayNumber (DateTime_local (year monthDT) (month monthDT) 1)
                - (weekday (DateTime_local (year monthDT) (month monthDT) 1) mod 7
                     - firstDay + 7) mod 7
                + int (7 * r + c)))"
  proof (intro exI [of _ ?cal] conjI allI impI)
    show "buildCalendar firstDay monthDT = Some ?cal" by (rule buildCalendar_eq)
    show "length ?cal = 6" by (rule grid_from_length)
    show "length (?cal ! r) = 7" if "r < 6" for r using that by (rule grid_from_row)
  next
    fix r c :: nat assume "r < 6" "c < 7"
    then show "?cal ! r ! c =
           set_hms
             (plus_days
                (plus_days (DateTime_local (year monthDT) (month monthDT) 1)
                   (- ((weekday (DateTime_local (year monthDT) (month monthDT) 1) mod 7
                        - firstDay + 7) mod 7)))
                (int (7 * r + c)))
             (hour monthDT) (minute monthDT) (second monthDT)"
      by (rule cells)
    show "hour (?cal ! r ! c) = hour monthDT" "minute (?cal ! r ! c) = minute monthDT"
      "second (?cal ! r ! c) = second monthDT"
      unfolding cells [OF \<open>r < 6\<close> \<open>c < 7\<close>] by (simp_all add: set_hms_def)
    show "millisecond (?cal ! r ! c) = 0" using \<open>r < 6\<close> \<open>c < 7\<close> by (rule ms)
  next
    fix r c :: nat
    assume m: "1 \<le> month monthDT \<and> month monthDT \<le> 12" and rc: "r < 6" "c < 7"
    from num [OF rc m]
    show "valid_date (?cal ! r ! c)"
      and "dayNumber (?cal ! r ! c) =
              dayNumber (DateTime_local (year monthDT) (month monthDT) 1)
                - (weekday (DateTime_local (year monthDT) (month monthDT) 1) mod 7
                     - firstDay + 7) mod 7
                + int (7 * r + c)"
      by simp_all
  qed
next
  fix a :: DateTime
  assume a: "year a = 2024 \<and> month a = 3"
  have c0: "grid_from (firstCell a 1) (hour a) (minute a) (second a) ! 0 ! 0 =
      set_hms (DateTime_local 2024 2 26) (hour a) (minute a) (second a)"
    using a grid_from_cell [of 0 0] by (simp add: march_2024_first plus_days_def)
  have c41: "grid_from (firstCell a 1) (hour a) (minute a) (second a) ! 5 ! 6 =
      set_hms (DateTime_local 2024 4 7) (hour a) (minute a) (second a)"
    using a grid_from_cell [of 5 6 "firstCell a 1"] by (simp add: march_2024_first march_2024_last)
  show "\<exists>cal. buildCalendar 1 a = Some cal \<and>
         year (cal ! 0 ! 0) = 2024 \<and> month (cal ! 0 ! 0) = 2 \<and> day (cal ! 0 ! 0) = 26 \<and>
         year (cal ! 5 ! 6) = 2024 \<and> month (cal ! 5 ! 6) = 4 \<and> day (cal ! 5 ! 6) = 7"
    by (simp add: buildCalendar_eq c0 c41 set_hms_def DateTime_local_def)
qed

theorem buildCalendar_grid_witness:
  "1 \<le> month anchor_jan_2023 \<and> month anchor_jan_2023 \<le> 12 \<and>
   (\<exists>cal. buildCalendar 0 anchor_jan_2023 = Some cal \<and> (1::nat) < 6 \<and> (2::nat) < 7 \<and>
     cal ! 1 ! 2 =
       \<lparr>year = 2023, month = 1, day = 10, hour = 9, minute = 30, second = 0, millisecond = 0\<rparr> \<and>
     dayNumber (cal ! 1 ! 2) = 19367)"
proof -
  have m: "1 \<le> month anchor_jan_2023 \<and> month anchor_jan_2023 \<le> 12"
    by (simp add: anchor_jan_2023_def)
  from buildCalendar_grid [of 0 anchor_jan_2023]
  obtain cal where built: "buildCalendar 0 anchor_jan_2023 = Some cal"
    and cells: "\<forall>r<6. \<forall>c<7.
         cal ! r ! c =
           set_hms
             (plus_days
                (plus_days (DateTime_local (year anchor_jan_2023) (month anchor_jan_2023) 1)
                   (- ((weekday (DateTime_local (year anchor_jan_2023) (month anchor_jan_2023) 1)
                        mod 7 - 0 + 7) mod 7)))
                (int (7 * r + c)))
             (hour anchor_jan_2023) (minute anchor_jan_2023) (second anchor_jan_2023) \<and>
         hour (cal ! r ! c) = hour anchor_jan_2023 \<and>
         minute (cal ! r ! c) = minute anchor_jan_2023 \<and>
         second (cal ! r ! c) = second anchor_jan_2023 \<and> millisecond (cal ! r ! c) = 0"
    and nums: "1 \<le> month anchor_jan_2023 \<and> month anchor_jan_2023 \<le> 12 \<longrightarrow>
         (\<forall>r<6. \<forall>c<7.
            valid_date (cal ! r ! c) \<and>
            dayNumber (cal ! r ! c) =
              dayNumber (DateTime_local (year anchor_jan_2023) (month anchor_jan_2023) 1)
                - (weekday (DateTime_local (year anchor_jan_2023) (month anchor_jan_2023) 1) mod 7
                     - 0 + 7) mod 7
                + int (7 * r + c))"
    by blast
  from cells have "cal ! 1 ! 2 =
      set_hms
        (plus_days
           (plus_days (DateTime_local (year anchor_jan_2023) (month anchor_jan_2023) 1)
              (- ((weekday (DateTime_local (year anchor_jan_2023) (month anchor_jan_2023) 1)
                   mod 7 - 0 + 7) mod 7)))
           (int (7 * 1 + 2)))
        (hour anchor_jan_2023) (minute anchor_jan_2023) (second anchor_jan_2023)"
    by simp
  also have "\<dots> =
      \<lparr>year = 2023, month = 1, day = 10, hour = 9, minute = 30, second = 0, millisecond = 0\<rparr>"
    by (simp add: anchor_jan_2023_def DateTime_local_def weekday_def dayNumber_def
        days_from_civil_def plus_days_def eval_nat_numeral next_day_def daysInMonth_def
        set_hms_def)
  finally have c: "cal ! 1 ! 2 =
      \<lparr>year = 2023, month = 1, day = 10, hour = 9, minute = 30, second = 0, millisecond = 0\<rparr>" .
  from nums m have "dayNumber (cal ! 1 ! 2) =
      dayNumber (DateTime_local (year anchor_jan_2023) (month anchor_jan_2023) 1)
        - (weekday (DateTime_local (year anchor_jan_2023) (month anchor_jan_2023) 1) mod 7
             - 0 + 7) mod 7
        + int (7 * 1 + 2)"
    by simp
  also have "\<dots> = 19367"
    by (simp add: anchor_jan_2023_def DateTime_local_def weekday_def dayNumber_def
        days_from_civil_def)
  finally show ?thesis using built c m by simp
qed

section \<open>The classes of a day cell and the arrows\<close>

lemma valueOf_startOf_day: "valueOf (startOf_day d) = dayNumber d * 86400000"
  by (simp add: valueOf_def startOf_day_def dayNumber_def millisOfDay_def)

lemma valueOf_endOf_day: "valueOf (endOf_day d) = dayNumber d * 86400000 + 86399999"
  by (simp add: valueOf_def endOf_day_def dayNumber_def millisOfDay_def)

lemma millisOfDay_bounds: "valid_time d \<Longrightarrow> 0 \<le> millisOfDay d \<and> millisOfDay d < 86400000"
  unfolding valid_time_def millisOfDay_def by auto

lemma hasSame_day_iff:
  "valid_time b \<Longrightarrow> hasSame_day a b \<longleftrightarrow> dayNumber a = dayNumber b"
  using millisOfDay_bounds [of b]
  unfolding hasSame_day_def valueOf_startOf_day valueOf_endOf_day
  by (auto simp: valueOf_def)

lemma in_range_mem:
  "''in-range'' \<in> set (base_classes cr today minL maxL start end ref date) \<longleftrightarrow>
     (case end of None \<Rightarrow> False
      | Some e \<Rightarrow> valueOf date > valueOf (endOf_day start) \<and> valueOf date < valueOf (startOf_day e))"
  by (simp add: base_classes_def split: option.splits)

lemma start_date_mem:
  "''start-date'' \<in> set (base_classes cr today minL maxL start end ref date) \<longleftrightarrow>
     hasSame_day date start"
  by (simp add: base_classes_def split: option.splits)

lemma end_date_mem:
  "''end-date'' \<in> set (base_classes cr today minL maxL start end ref date) \<longleftrightarrow>
     (case end of None \<Rightarrow> False | Some e \<Rightarrow> hasSame_day date e)"
  by (simp add: base_classes_def split: option.splits)

lemma td_classes_in_range:
  "''in-range'' \<in> set (td_classes cr today minL maxL start end ref date) \<longleftrightarrow>
     ''in-range'' \<in> set (base_classes cr today minL maxL start end ref date) \<or>
     ''in-range'' \<in> set (custom_classes (cr_isCustomDate cr date))"
  by (simp add: td_classes_def)

lemma those_map:
  "(\<And>x. x \<in> set xs \<Longrightarrow> f x = Some (g x)) \<Longrightarrow> those (map f xs) = Some (map g xs)"
  by (induction xs) simp_all

lemma cell_grid_from:
  "row < 6 \<Longrightarrow> col < 7 \<Longrightarrow>
   cell (grid_from c h m s) row col = Some (set_hms (plus_days c (int (7 * row + col))) h m s)"
  by (simp add: cell_def grid_from_def)

text \<open>On a built grid \<open>render\<close> returns the arrows and the classes of every cell.\<close>

lemma render_grid:
  assumes "calendar cd = grid_from c h m s"
  shows "render cr today sd cd start end minD maxD span =
     Some \<lparr>r_prev = prev_th (isPrevAvailable cr sd (minDateLimit sd minD start)
                       (set_hms c h m s)),
           r_next = next_th (isNextAvailable cr sd (maxDateLimit start end maxD span)
                       (set_hms (plus_days c 41) h m s)),
           r_cells = map (\<lambda>row. map (\<lambda>col.
               td_classes cr today (minDateLimit sd minD start) (maxDateLimit start end maxD span)
                 start end (set_hms (plus_days c 8) h m s)
                 (set_hms (plus_days c (int (7 * row + col))) h m s)) [0..<7]) [0..<6]\<rparr>"
proof -
  have inner: "\<And>row. row \<in> set [0..<6] \<Longrightarrow>
      those (map (\<lambda>col. map_option
                (td_classes cr today (minDateLimit sd minD start) (maxDateLimit start end maxD span)
                   start end (set_hms (plus_days c 8) h m s))
                (cell (grid_from c h m s) row col)) [0..<7]) =
      Some (map (\<lambda>col.
               td_classes cr today (minDateLimit sd minD start) (maxDateLimit start end maxD span)
                 start end (set_hms (plus_days c 8) h m s)
                 (set_hms (plus_days c (int (7 * row + col))) h m s)) [0..<7])"
    by (rule those_map) (simp add: cell_grid_from)
  have c00: "cell (grid_from c h m s) 0 0 = Some (set_hms c h m s)"
    using cell_grid_from [of 0 0 c h m s] by (simp add: plus_days_def)
  have c56: "cell (grid_from c h m s) 5 6 = Some (set_hms (plus_days c 41) h m s)"
    using cell_grid_from [of 5 6 c h m s] by simp
  have c11: "cell (grid_from c h m s) (Suc 0) (Suc 0) = Some (set_hms (plus_days c 8) h m s)"
    using cell_grid_from [of 1 1 c h m s] by simp
  have outer: "those (map (\<lambda>row. those (map (\<lambda>col. map_option
                (td_classes cr today (minDateLimit sd minD start) (maxDateLimit start end maxD span)
                   start end (set_hms (plus_days c 8) h m s))
                (cell (grid_from c h m s) row col)) [0..<7])) [0..<6]) =
      Some (map (\<lambda>row. map (\<lambda>col.
               td_classes cr today (minDateLimit sd minD start) (maxDateLimit start end maxD span)
                 start end (set_hms (plus_days c 8) h m s)
                 (set_hms (plus_days c (int (7 * row + col))) h m s)) [0..<7]) [0..<6])"
    by (rule those_map) (rule inner)
  show ?thesis
    by (simp add: render_def Let_def assms c00 c56 c11 outer)
qed

text \<open>
  C6. With an end date chosen, the renderer pushes \<open>in-range\<close> for a cell exactly when
  the cell is after the end of the start day and before the start of the end day. A
  cell on the day of the start or of the end does not get it (it gets \<open>start-date\<close> or
  \<open>end-date\<close>), and a cell on a day strictly between the two does. The same holds
  for the full class list of the cell when \<open>isCustomDate\<close> adds no \<open>in-range\<close> of its
  own.
\<close>

theorem in_range_exclusive:
  assumes "valid_time date" and "valid_time start" and "valid_time e"
  shows
    "(''in-range'' \<in> set (base_classes cr today minL maxL start (Some e) ref date) \<longleftrightarrow>
        valueOf date > valueOf (endOf_day start) \<and> valueOf date < valueOf (startOf_day e)) \<and>
     (hasSame_day date start \<or> hasSame_day date e \<longrightarrow>
        ''in-range'' \<notin> set (base_classes cr today minL maxL start (Some e) ref date)) \<and>
     (hasSame_day date start \<longrightarrow>
        ''start-date'' \<in> set (base_classes cr today minL maxL start (Some e) ref date)) \<and>
     (hasSame_day date e \<longrightarrow>
        ''end-date'' \<in> set (base_classes cr today minL maxL start (Some e) ref date)) \<and>
     (dayNumber start < dayNumber date \<and> dayNumber date < dayNumber e \<longrightarrow>
        ''in-range'' \<in> set (base_classes cr today minL maxL start (Some e) ref date)) \<and>
     (''in-range'' \<notin> set (custom_classes (cr_isCustomDate cr date)) \<longrightarrow>
        (''in-range'' \<in> set (td_classes cr today minL maxL start (Some e) ref date) \<longleftrightarrow>
           valueOf date > valueOf (endOf_day start) \<and> valueOf date < valueOf (startOf_day e)))"
proof -
  have d: "0 \<le> millisOfDay date \<and> millisOfDay date < 86400000"
    using assms(1) by (rule millisOfDay_bounds)
  have s: "hasSame_day date start \<longleftrightarrow> dayNumber date = dayNumber start"
    using assms(2) by (rule hasSame_day_iff)
  have e: "hasSame_day date e \<longleftrightarrow> dayNumber date = dayNumber e"
    using assms(3) by (rule hasSame_day_iff)
  have vd: "valueOf date = dayNumber date * 86400000 + millisOfDay date"
    by (simp add: valueOf_def)
  show ?thesis
    using d
    by (auto simp: in_range_mem start_date_mem end_date_mem td_classes_in_range s e
        valueOf_startOf_day valueOf_endOf_day vd)
qed

theorem in_range_exclusive_witness:
  "valid_time (DateTime_local 2024 3 12) \<and> valid_time (DateTime_local 2024 3 10) \<and>
   valid_time (endOf_day (DateTime_local 2024 3 15)) \<and>
   hasSame_day (DateTime_local 2024 3 10) (DateTime_local 2024 3 10) \<and>
   ''start-date'' \<in> set (base_classes renderer0 (DateTime_local 2024 3 1) None None
      (DateTime_local 2024 3 10) (Some (endOf_day (DateTime_local 2024 3 15)))
      (DateTime_local 2024 3 5) (DateTime_local 2024 3 10)) \<and>
   dayNumber (DateTime_local 2024 3 10) < dayNumber (DateTime_local 2024 3 12) \<and>
   dayNumber (DateTime_local 2024 3 12) < dayNumber (endOf_day (DateTime_local 2024 3 15)) \<and>
   ''in-range'' \<in> set (base_classes renderer0 (DateTime_local 2024 3 1) None None
      (DateTime_local 2024 3 10) (Some (endOf_day (DateTime_local 2024 3 15)))
      (DateTime_local 2024 3 5) (DateTime_local 2024 3 12))"
proof -
  have v: "valid_time (DateTime_local 2024 3 12)" "valid_time (DateTime_local 2024 3 10)"
    "valid_time (endOf_day (DateTime_local 2024 3 15))"
    by (simp_all add: valid_time_def DateTime_local_def endOf_day_def)
  have n: "dayNumber (DateTime_local 2024 3 10) < dayNumber (DateTime_local 2024 3 12)"
    "dayNumber (DateTime_local 2024 3 12) < dayNumber (endOf_day (DateTime_local 2024 3 15))"
    by (simp_all add: dayNumber_def DateTime_local_def endOf_day_def days_from_civil_def)
  have h: "hasSame_day (DateTime_local 2024 3 10) (DateTime_local 2024 3 10)"
    using v(2) by (simp add: hasSame_day_iff)
  from in_range_exclusive [OF v(1) v(2) v(3), of renderer0 "DateTime_local 2024 3 1" None None
      "DateTime_local 2024 3 5"]
    in_range_exclusive [OF v(2) v(2) v(3), of renderer0 "DateTime_local 2024 3 1" None None
      "DateTime_local 2024 3 5"]
  show ?thesis using v n h by blast
qed

text \<open>
  C10. With linked calendars and single-date mode off, the right calendar renders an
  inert header cell in place of the prev arrow and the left calendar one in place of the
  next arrow: a rendered prev arrow is on the left, a rendered next arrow on the right.
\<close>

theorem linked_navigation_controls:
  assumes "cr_linkedCalendars cr" and "\<not> cr_singleDatePicker cr"
    and "render cr today sd cd start end minD maxD span = Some r"
  shows \<open>(sd = Right \<longrightarrow> r_prev r = ''<th></th>'') \<and>
         (sd = Left \<longrightarrow> r_next r = ''<th></th>'') \<and>
         (r_prev r = ''<th class="prev available"><span></span></th>'' \<longrightarrow> sd = Left) \<and>
         (r_next r = ''<th class="next available"><span></span></th>'' \<longrightarrow> sd = Right) \<and>
         (\<forall>minLimit firstDay. isPrevAvailable cr sd minLimit firstDay \<longrightarrow> sd = Left) \<and>
         (\<forall>maxLimit lastDay. isNextAvailable cr sd maxLimit lastDay \<longrightarrow> sd = Right)\<close>
proof -
  have p: "\<And>minLimit firstDay. isPrevAvailable cr sd minLimit firstDay \<Longrightarrow> sd = Left"
    using assms(1) by (simp add: isPrevAvailable_def)
  have n: "\<And>maxLimit lastDay. isNextAvailable cr sd maxLimit lastDay \<Longrightarrow> sd = Right"
    using assms(1,2) by (simp add: isNextAvailable_def)
  from assms(3) obtain a b cells where r: "r = \<lparr>r_prev = prev_th a, r_next = next_th b, r_cells = cells\<rparr>"
    and a: "a \<Longrightarrow> sd = Left" and b: "b \<Longrightarrow> sd = Right"
    using p n
    by (auto simp: render_def Let_def split: option.splits prod.splits)
  have 1: "sd = Right \<longrightarrow> r_prev r = ''<th></th>''"
    using a by (cases a) (auto simp: r prev_th_def)
  have 2: "sd = Left \<longrightarrow> r_next r = ''<th></th>''"
    using b by (cases b) (auto simp: r next_th_def)
  have 3: \<open>r_prev r = ''<th class="prev available"><span></span></th>'' \<longrightarrow> sd = Left\<close>
    using a by (cases a) (auto simp: r prev_th_def)
  have 4: \<open>r_next r = ''<th class="next available"><span></span></th>'' \<longrightarrow> sd = Right\<close>
    using b by (cases b) (auto simp: r next_th_def)
  from 1 2 3 4 p n show ?thesis by blast
qed

theorem linked_navigation_controls_witness:
  \<open>cr_linkedCalendars renderer0 \<and> \<not> cr_singleDatePicker renderer0 \<and>
   (\<exists>r. render renderer0 (DateTime_local 2024 3 1) Right march_2024 (DateTime_local 2024 3 10)
          None None None None = Some r \<and> r_prev r = ''<th></th>'' \<and>
        r_next r = ''<th class="next available"><span></span></th>'')\<close>
proof -
  have c: "cr_linkedCalendars renderer0" "\<not> cr_singleDatePicker renderer0"
    by (simp_all add: renderer0_def)
  have g: "calendar march_2024 = grid_from (DateTime_local 2024 2 26) 0 0 0"
    by (simp add: march_2024_def)
  obtain r where r: "render renderer0 (DateTime_local 2024 3 1) Right march_2024
      (DateTime_local 2024 3 10) None None None None = Some r"
    and nx: "r_next r = next_th (isNextAvailable renderer0 Right
        (maxDateLimit (DateTime_local 2024 3 10) None None None)
        (set_hms (plus_days (DateTime_local 2024 2 26) 41) 0 0 0))"
    using render_grid [OF g] by simp
  have "r_next r = ''<th class=\"next available\"><span></span></th>''"
    unfolding nx by (simp add: isNextAvailable_def maxDateLimit_def next_th_def)
  with linked_navigation_controls [OF c r] r c show ?thesis by simp
qed

section \<open>The effective maximum\<close>

lemma plus_seven_days:
  "plus_duration (DateTime_local 2024 3 10) seven_days = DateTime_local 2024 3 17"
  by (simp add: plus_duration_def seven_days_def plus_millis_def plus_months_def monthIndex_def
      plus_days_def millisOfDay_def DateTime_local_def daysInMonth_def next_day_def
      eval_nat_numeral Let_def)

lemma valueOf_mar_17_end: "valueOf (endOf_day (DateTime_local 2024 3 17)) = 1710719999999"
  by (simp add: valueOf_def dayNumber_def days_from_civil_def millisOfDay_def endOf_day_def
      DateTime_local_def)

lemma valueOf_mar_17: "valueOf (DateTime_local 2024 3 17) = 1710633600000"
  by (simp add: valueOf_def dayNumber_def days_from_civil_def millisOfDay_def DateTime_local_def)

lemma valueOf_mar_31: "valueOf (DateTime_local 2024 3 31) = 1711843200000"
  by (simp add: valueOf_def dayNumber_def days_from_civil_def millisOfDay_def DateTime_local_def)

text \<open>
  C1, as stated, fails. Start on 10 March 2024, a span of seven days and a maximum of
  31 March: with no end date the cells are limited by 31 March, not by the end of
  17 March, and with an end date the time options are limited by 17 March, not by
  31 March.
\<close>

theorem effective_max_counterexample:
  "maxDateLimit (DateTime_local 2024 3 10) None (Some (DateTime_local 2024 3 31)) (Some seven_days)
     = Some (DateTime_local 2024 3 31) \<and>
   valueOf (DateTime_local 2024 3 31) \<noteq>
     min (valueOf (DateTime_local 2024 3 31))
         (valueOf (endOf_day (plus_duration (DateTime_local 2024 3 10) seven_days))) \<and>
   endDate picker0 \<noteq> None \<and>
   map tl_max (renderTimePickers
       (picker0\<lparr>cfg := config0\<lparr>maxDate := Some (DateTime_local 2024 3 31),
                                  maxSpan := Some seven_days\<rparr>\<rparr>))
     = [Some (DateTime_local 2024 3 17), Some (DateTime_local 2024 3 17)] \<and>
   Some (DateTime_local 2024 3 17) \<noteq> Some (DateTime_local 2024 3 31)"
proof (intro conjI)
  show "maxDateLimit (DateTime_local 2024 3 10) None (Some (DateTime_local 2024 3 31))
      (Some seven_days) = Some (DateTime_local 2024 3 31)"
    by (simp add: maxDateLimit_def plus_seven_days valueOf_mar_17_end valueOf_mar_31 Let_def)
  show "valueOf (DateTime_local 2024 3 31) \<noteq>
     min (valueOf (DateTime_local 2024 3 31))
         (valueOf (endOf_day (plus_duration (DateTime_local 2024 3 10) seven_days)))"
    by (simp add: plus_seven_days valueOf_mar_17_end valueOf_mar_31)
  show "endDate picker0 \<noteq> None"
    by (simp add: picker0_def)
  show "map tl_max (renderTimePickers
       (picker0\<lparr>cfg := config0\<lparr>maxDate := Some (DateTime_local 2024 3 31),
                                  maxSpan := Some seven_days\<rparr>\<rparr>))
     = [Some (DateTime_local 2024 3 17), Some (DateTime_local 2024 3 17)]"
    by (simp add: renderTimePickers_def timePickerRender_def timeMaxDate_def picker0_def
        plus_seven_days valueOf_mar_17 valueOf_mar_31 Let_def)
  show "Some (DateTime_local 2024 3 17) \<noteq> Some (DateTime_local 2024 3 31)"
    by (simp add: DateTime_local_def)
qed

text \<open>
  C1, amended. The time options are limited by the earlier of \<open>maxDate\<close> and
  \<open>startDate + maxSpan\<close> whenever a span is configured, with or without an end date, and
  by \<open>maxDate\<close> as given when no span is configured. The cells are limited by \<open>maxDate\<close>
  as given when an end date is present or no span is configured, and by the end of the
  day of \<open>startDate + maxSpan\<close> when there is no end date and no \<open>maxDate\<close>.
\<close>

theorem effective_max:
  "timeMaxDate start maxD None = maxD \<and>
   timeMaxDate start None (Some sp) = Some (plus_duration start sp) \<and>
   (\<exists>r. timeMaxDate start (Some md) (Some sp) = Some r \<and>
        (r = md \<or> r = plus_duration start sp) \<and>
        valueOf r = min (valueOf md) (valueOf (plus_duration start sp))) \<and>
   map tl_max (renderTimePickers st) =
     [timeMaxDate (startDate st) (maxDate (cfg st)) (maxSpan (cfg st)),
      timeMaxDate (startDate st) (maxDate (cfg st)) (maxSpan (cfg st))] \<and>
   maxDateLimit start (Some e) maxD span = maxD \<and>
   maxDateLimit start end maxD None = maxD \<and>
   maxDateLimit start None None (Some sp) = Some (endOf_day (plus_duration start sp))"
  by (auto simp: timeMaxDate_def maxDateLimit_def renderTimePickers_def timePickerRender_def
      Let_def split: option.splits)

theorem effective_max_witness:
  "timeMaxDate (DateTime_local 2024 3 10) (Some (DateTime_local 2024 3 31)) (Some seven_days) =
     Some (DateTime_local 2024 3 17) \<and>
   maxDateLimit (DateTime_local 2024 3 10) (Some (DateTime_local 2024 3 15))
     (Some (DateTime_local 2024 3 31)) (Some seven_days) = Some (DateTime_local 2024 3 31)"
proof -
  from effective_max [where start = "DateTime_local 2024 3 10" and sp = seven_days
      and md = "DateTime_local 2024 3 31" and e = "DateTime_local 2024 3 15"
      and maxD = "Some (DateTime_local 2024 3 31)" and span = "Some seven_days"]
  obtain r where r: "timeMaxDate (DateTime_local 2024 3 10) (Some (DateTime_local 2024 3 31))
        (Some seven_days) = Some r"
    and c: "r = DateTime_local 2024 3 31 \<or> r = plus_duration (DateTime_local 2024 3 10) seven_days"
    and v: "valueOf r = min (valueOf (DateTime_local 2024 3 31))
        (valueOf (plus_duration (DateTime_local 2024 3 10) seven_days))"
    and l: "maxDateLimit (DateTime_local 2024 3 10) (Some (DateTime_local 2024 3 15))
        (Some (DateTime_local 2024 3 31)) (Some seven_days) = Some (DateTime_local 2024 3 31)"
    by blast
  from v have "valueOf r \<noteq> valueOf (DateTime_local 2024 3 31)"
    by (simp add: plus_seven_days valueOf_mar_17 valueOf_mar_31)
  with c have "r = DateTime_local 2024 3 17"
    by (auto simp: plus_seven_days)
  with r l show ?thesis by simp
qed

section \<open>The hover preview\<close>

lemma hover_tds_map:
  "\<forall>t\<in>set tds. lookup_cell st (td_isLeft t) (td_row t) (td_col t) \<noteq> None \<Longrightarrow>
   hover_tds st (Some date) tds = (map (hover_td st date) tds, None)"
  by (induction tds) (auto simp: hover_td_def)

lemma in_range_classList_add: "''in-range'' \<in> set (classList_add cl ''in-range'')"
  by (simp add: classList_add_def)

lemma in_range_classList_remove: "''in-range'' \<notin> set (classList_remove cl ''in-range'')"
  by (simp add: classList_remove_def)

lemma hover_td_in_range:
  "lookup_cell st (td_isLeft t) (td_row t) (td_col t) = Some d \<Longrightarrow>
   \<not> classList_contains (td_classList t) ''week'' \<Longrightarrow>
   ''in-range'' \<in> set (td_classList (hover_td st date t)) \<longleftrightarrow> hover_in_range st date d"
  by (simp add: hover_td_def in_range_classList_add in_range_classList_remove)

lemma lookup_mar_14: "lookup_cell (picker0\<lparr>endDate := None\<rparr>) True 2 3 = Some (DateTime_local 2024 3 14)"
proof -
  have "plus_days (DateTime_local 2024 2 26) 17 = DateTime_local 2024 3 14"
    by (simp add: DateTime_local_def plus_days_def eval_nat_numeral next_day_def
        daysInMonth_def isLeapYear_def)
  then show ?thesis
    using cell_grid_from [of 2 3 "DateTime_local 2024 2 26" 0 0 0]
    by (simp add: lookup_cell_def picker0_def march_2024_def set_hms_def DateTime_local_def)
qed

text \<open>
  C8, as stated, fails. With 10 March 2024 as the start and no end, hovering the cell of
  14 March marks that cell itself, which is not before the start of the hovered day: the
  renderer's test with 14 March as the end date does not flag it.
\<close>

theorem hover_counterexample:
  "hoverDate (picker0\<lparr>endDate := None\<rparr>) td_mar_14 [td_mar_14] =
     (picker0\<lparr>endDate := None\<rparr>,
      [td_mar_14\<lparr>td_classList := [''available'', ''in-range'']\<rparr>], None) \<and>
   lookup_cell (picker0\<lparr>endDate := None\<rparr>) True 2 3 = Some (DateTime_local 2024 3 14) \<and>
   ''in-range'' \<notin> set (base_classes renderer0 (DateTime_local 2024 3 1) None None
      (startDate (picker0\<lparr>endDate := None\<rparr>)) (Some (DateTime_local 2024 3 14))
      (DateTime_local 2024 3 5) (DateTime_local 2024 3 14))"
proof (intro conjI)
  have midnight: "valueOf (DateTime_local 2024 3 14) = dayNumber (DateTime_local 2024 3 14) * 86400000"
    by (simp add: valueOf_def millisOfDay_def DateTime_local_def)
  have same: "hasSame_day (DateTime_local 2024 3 14) (DateTime_local 2024 3 14)"
    by (simp add: hasSame_day_iff valid_time_def DateTime_local_def)
  show "hoverDate (picker0\<lparr>endDate := None\<rparr>) td_mar_14 [td_mar_14] =
     (picker0\<lparr>endDate := None\<rparr>,
      [td_mar_14\<lparr>td_classList := [''available'', ''in-range'']\<rparr>], None)"
    using lookup_mar_14 same
    by (simp add: hoverDate_def td_mar_14_def classList_contains_def hover_in_range_def
        classList_add_def)
  show "lookup_cell (picker0\<lparr>endDate := None\<rparr>) True 2 3 = Some (DateTime_local 2024 3 14)"
    by (rule lookup_mar_14)
  show "''in-range'' \<notin> set (base_classes renderer0 (DateTime_local 2024 3 1) None None
      (startDate (picker0\<lparr>endDate := None\<rparr>)) (Some (DateTime_local 2024 3 14))
      (DateTime_local 2024 3 5) (DateTime_local 2024 3 14))"
    using midnight by (simp add: in_range_mem valueOf_startOf_day)
qed

text \<open>
  C8, amended. With no end date chosen, hovering an available cell of date \<open>h\<close> marks a
  day cell \<open>d\<close> as in range exactly when \<open>d\<close> is after the end of the start day and
  before the start of the day of \<open>h\<close>, or \<open>d\<close> is on the day of \<open>h\<close>; the picker is
  returned as it was. With an end date chosen, or on a cell that is not available,
  nothing is marked.
\<close>

theorem hoverDate_marks:
  assumes "endDate st = None"
    and "classList_contains (td_classList target) ''available''"
    and "lookup_cell st (td_isLeft target) (td_row target) (td_col target) = Some h"
    and "\<forall>t\<in>set tds. lookup_cell st (td_isLeft t) (td_row t) (td_col t) \<noteq> None"
  shows "hoverDate st target tds = (st, map (hover_td st h) tds, None) \<and>
     (\<forall>t\<in>set tds. \<forall>d. lookup_cell st (td_isLeft t) (td_row t) (td_col t) = Some d \<and>
          \<not> classList_contains (td_classList t) ''week'' \<longrightarrow>
        (''in-range'' \<in> set (td_classList (hover_td st h t)) \<longleftrightarrow>
           (valueOf d > valueOf (endOf_day (startDate st)) \<and> valueOf d < valueOf (startOf_day h)) \<or>
           hasSame_day d h)) \<and>
     (\<forall>st' target'. endDate st' \<noteq> None \<or> \<not> classList_contains (td_classList target') ''available''
        \<longrightarrow> hoverDate st' target' tds = (st', tds, None))"
proof (intro conjI)
  show "hoverDate st target tds = (st, map (hover_td st h) tds, None)"
    using assms by (simp add: hoverDate_def hover_tds_map)
  show "\<forall>t\<in>set tds. \<forall>d. lookup_cell st (td_isLeft t) (td_row t) (td_col t) = Some d \<and>
          \<not> classList_contains (td_classList t) ''week'' \<longrightarrow>
        (''in-range'' \<in> set (td_classList (hover_td st h t)) \<longleftrightarrow>
           (valueOf d > valueOf (endOf_day (startDate st)) \<and> valueOf d < valueOf (startOf_day h)) \<or>
           hasSame_day d h)"
    by (auto simp: hover_td_in_range hover_in_range_def)
  show "\<forall>st' target'. endDate st' \<noteq> None \<or> \<not> classList_contains (td_classList target') ''available''
        \<longrightarrow> hoverDate st' target' tds = (st', tds, None)"
    by (auto simp: hoverDate_def)
qed

theorem hoverDate_marks_witness:
  "endDate (picker0\<lparr>endDate := None\<rparr>) = None \<and>
   classList_contains (td_classList td_mar_14) ''available'' \<and>
   lookup_cell (picker0\<lparr>endDate := None\<rparr>) (td_isLeft td_mar_14) (td_row td_mar_14)
     (td_col td_mar_14) = Some (DateTime_local 2024 3 14) \<and>
   hoverDate (picker0\<lparr>endDate := None\<rparr>) td_mar_14 [td_mar_14] =
     (picker0\<lparr>endDate := None\<rparr>,
      map (hover_td (picker0\<lparr>endDate := None\<rparr>) (DateTime_local 2024 3 14)) [td_mar_14], None)"
proof -
  have 1: "endDate (picker0\<lparr>endDate := None\<rparr>) = None" by simp
  have 2: "classList_contains (td_classList td_mar_14) ''available''"
    by (simp add: td_mar_14_def classList_contains_def)
  have 3: "lookup_cell (picker0\<lparr>endDate := None\<rparr>) (td_isLeft td_mar_14) (td_row td_mar_14)
     (td_col td_mar_14) = Some (DateTime_local 2024 3 14)"
    using lookup_mar_14 by (simp add: td_mar_14_def)
  have 4: "\<forall>t\<in>set [td_mar_14]. lookup_cell (picker0\<lparr>endDate := None\<rparr>) (td_isLeft t) (td_row t)
     (td_col t) \<noteq> None"
    using 3 by simp
  from hoverDate_marks [OF 1 2 3 4] 1 2 3 show ?thesis by simp
qed

section \<open>The two anchors of linked calendars\<close>

lemma daysInMonth_ge_2: "2 \<le> daysInMonth y m"
  by (simp add: daysInMonth_def)

lemma monthIndex_plus_months: "monthIndex (plus_months d n) = monthIndex d + n"
  by (simp add: monthIndex_def plus_months_def Let_def)

lemma monthIndex_normal:
  "monthIndex (d\<lparr>year := i div 12, month := i mod 12 + 1\<rparr>) = i"
  by (simp add: monthIndex_def)

lemma plus_months_day_2:
  "day d = 2 \<Longrightarrow>
   plus_months d n = d\<lparr>year := (monthIndex d + n) div 12, month := (monthIndex d + n) mod 12 + 1\<rparr>"
  using daysInMonth_ge_2 [of "(monthIndex d + n) div 12" "(monthIndex d + n) mod 12 + 1"]
  by (simp add: plus_months_def Let_def min_def)

lemma day_plus_months: "day d = 2 \<Longrightarrow> day (plus_months d n) = 2"
  by (simp add: plus_months_day_2)

lemma plus_months_plus_months:
  assumes "day d = 2"
  shows "plus_months (plus_months d a) b = plus_months d (a + b)"
proof -
  have "plus_months (plus_months d a) b =
      (plus_months d a)\<lparr>year := (monthIndex (plus_months d a) + b) div 12,
                         month := (monthIndex (plus_months d a) + b) mod 12 + 1\<rparr>"
    using assms by (simp add: plus_months_day_2 day_plus_months)
  also have "\<dots> = d\<lparr>year := (monthIndex d + (a + b)) div 12,
                      month := (monthIndex d + (a + b)) mod 12 + 1\<rparr>"
    using assms by (simp add: monthIndex_normal plus_months_day_2 add.assoc)
  also have "\<dots> = plus_months d (a + b)"
    using assms by (simp add: plus_months_day_2)
  finally show ?thesis .
qed

lemma plus_months_0:
  "day d = 2 \<Longrightarrow> 1 \<le> month d \<Longrightarrow> month d \<le> 12 \<Longrightarrow> plus_months d 0 = d"
  by (simp add: plus_months_day_2 monthIndex_def)


lemma plus_months_there_and_back:
  "day d = 2 \<Longrightarrow> 1 \<le> month d \<Longrightarrow> month d \<le> 12 \<Longrightarrow>
   plus_months (plus_months d (- 1)) 1 = d"
  by (simp add: plus_months_plus_months plus_months_0)

text \<open>What the redraw after a command leaves as it is.\<close>

lemma calculateChosenLabel_fields:
  "cfg (fst (calculateChosenLabel st)) = cfg st"
  "ranges (fst (calculateChosenLabel st)) = ranges st"
  "startDate (fst (calculateChosenLabel st)) = startDate st"
  "endDate (fst (calculateChosenLabel st)) = endDate st"
  "oldStartDate (fst (calculateChosenLabel st)) = oldStartDate st"
  "oldEndDate (fst (calculateChosenLabel st)) = oldEndDate st"
  "isShowing (fst (calculateChosenLabel st)) = isShowing st"
  "leftCalendar (fst (calculateChosenLabel st)) = leftCalendar st"
  "rightCalendar (fst (calculateChosenLabel st)) = rightCalendar st"
  "showCalendar (fst (calculateChosenLabel st)) = showCalendar st"
  "applyDisabled (fst (calculateChosenLabel st)) = applyDisabled st"
  "emitted (fst (calculateChosenLabel st)) = emitted st"
  by (simp_all add: calculateChosenLabel_def ok_def split: sum.splits)

lemma updateCalendars_eq:
  "updateCalendars st =
     calculateChosenLabel
       (st\<lparr>leftCalendar := (leftCalendar st)\<lparr>calendar :=
               grid_from (firstCell (cal_month (leftCalendar st)) (locale_firstDay (cfg st)))
                 (hour (cal_month (leftCalendar st))) (minute (cal_month (leftCalendar st)))
                 (second (cal_month (leftCalendar st)))\<rparr>,
            rightCalendar := (rightCalendar st)\<lparr>calendar :=
               grid_from (firstCell (cal_month (rightCalendar st)) (locale_firstDay (cfg st)))
                 (hour (cal_month (rightCalendar st))) (minute (cal_month (rightCalendar st)))
                 (second (cal_month (rightCalendar st)))\<rparr>\<rparr>)"
  by (simp add: updateCalendars_def buildCalendar_eq Let_def)

lemma updateCalendars_fields:
  "cfg (fst (updateCalendars st)) = cfg st"
  "ranges (fst (updateCalendars st)) = ranges st"
  "startDate (fst (updateCalendars st)) = startDate st"
  "endDate (fst (updateCalendars st)) = endDate st"
  "oldStartDate (fst (updateCalendars st)) = oldStartDate st"
  "oldEndDate (fst (updateCalendars st)) = oldEndDate st"
  "isShowing (fst (updateCalendars st)) = isShowing st"
  "cal_month (leftCalendar (fst (updateCalendars st))) = cal_month (leftCalendar st)"
  "cal_month (rightCalendar (fst (updateCalendars st))) = cal_month (rightCalendar st)"
  "showCalendar (fst (updateCalendars st)) = showCalendar st"
  "applyDisabled (fst (updateCalendars st)) = applyDisabled st"
  "emitted (fst (updateCalendars st)) = emitted st"
  by (simp_all add: updateCalendars_eq calculateChosenLabel_fields)

lemma clickPrev_left_linked:
  "linkedCalendars (cfg st) \<Longrightarrow>
   cal_month (leftCalendar (fst (clickPrev st Left))) = plus_months (cal_month (leftCalendar st)) (- 1) \<and>
   cal_month (rightCalendar (fst (clickPrev st Left))) = plus_months (cal_month (rightCalendar st)) (- 1)"
  by (simp add: clickPrev_def updateCalendars_fields Let_def)

lemma clickNext_right_linked:
  "linkedCalendars (cfg st) \<Longrightarrow>
   cal_month (leftCalendar (fst (clickNext st Right))) = plus_months (cal_month (leftCalendar st)) 1 \<and>
   cal_month (rightCalendar (fst (clickNext st Right))) = plus_months (cal_month (rightCalendar st)) 1"
  by (simp add: clickNext_def updateCalendars_fields Let_def)

lemma clickPrev_right:
  "cal_month (leftCalendar (fst (clickPrev st Right))) = cal_month (leftCalendar st) \<and>
   cal_month (rightCalendar (fst (clickPrev st Right))) = plus_months (cal_month (rightCalendar st)) (- 1)"
  by (simp add: clickPrev_def updateCalendars_fields Let_def)

lemma clickNext_left:
  "cal_month (leftCalendar (fst (clickNext st Left))) = plus_months (cal_month (leftCalendar st)) 1 \<and>
   cal_month (rightCalendar (fst (clickNext st Left))) = cal_month (rightCalendar st)"
  by (simp add: clickNext_def updateCalendars_fields Let_def)

lemma monthOrYearChanged_linked:
  "linkedCalendars (cfg st) \<Longrightarrow>
   cal_month (leftCalendar (fst (monthOrYearChanged st sd mv y))) =
     (if sd = Left then (DateTime_local y (mv + 1) 1)\<lparr>day := 2\<rparr>
      else plus_months ((DateTime_local y (mv + 1) 1)\<lparr>day := 2\<rparr>) (- 1)) \<and>
   cal_month (rightCalendar (fst (monthOrYearChanged st sd mv y))) =
     (if sd = Left then plus_months ((DateTime_local y (mv + 1) 1)\<lparr>day := 2\<rparr>) 1
      else (DateTime_local y (mv + 1) 1)\<lparr>day := 2\<rparr>)"
  by (simp add: monthOrYearChanged_def updateCalendars_fields Let_def)

lemma apply_command_cfg: "cfg (fst (apply_command st c)) = cfg st"
  by (cases c)
    (simp_all add: apply_command_def clickPrev_def clickNext_def monthOrYearChanged_def
      updateCalendars_fields Let_def)

lemma anchors_linked_step:
  assumes "linkedCalendars (cfg st)" and "anchors_linked st" and "linked_control c"
  shows "anchors_linked (fst (apply_command st c))"
proof (cases c)
  case (Prev sd)
  with assms(3) have sd: "sd = Left" by simp
  have d: "day (cal_month (leftCalendar st)) = 2"
    and r: "cal_month (rightCalendar st) = plus_months (cal_month (leftCalendar st)) 1"
    using assms(2) by (simp_all add: anchors_linked_def)
  show ?thesis
    using clickPrev_left_linked [OF assms(1)] d
    by (simp add: Prev sd apply_command_def anchors_linked_def r day_plus_months
        plus_months_plus_months)
next
  case (Next sd)
  with assms(3) have sd: "sd = Right" by simp
  have d: "day (cal_month (leftCalendar st)) = 2"
    and r: "cal_month (rightCalendar st) = plus_months (cal_month (leftCalendar st)) 1"
    using assms(2) by (simp_all add: anchors_linked_def)
  show ?thesis
    using clickNext_right_linked [OF assms(1)] d
    by (simp add: Next sd apply_command_def anchors_linked_def r day_plus_months
        plus_months_plus_months)
next
  case (MonthOrYear sd mv y)
  with assms(3) have mv: "0 \<le> mv" "mv < 12" by simp_all
  have d2: "day ((DateTime_local y (mv + 1) 1)\<lparr>day := 2\<rparr>) = 2" by simp
  have rt: "plus_months (plus_months ((DateTime_local y (mv + 1) 1)\<lparr>day := 2\<rparr>) (- 1)) 1 =
      (DateTime_local y (mv + 1) 1)\<lparr>day := 2\<rparr>"
    using mv by (intro plus_months_there_and_back) (simp_all add: DateTime_local_def)
  show ?thesis
    using monthOrYearChanged_linked [OF assms(1), of sd mv y] rt
    by (cases sd)
      (simp_all add: MonthOrYear apply_command_def anchors_linked_def day_plus_months)
qed

lemma anchors_linked_run:
  "linkedCalendars (cfg st) \<Longrightarrow> anchors_linked st \<Longrightarrow> \<forall>c\<in>set cs. linked_control c \<Longrightarrow>
   anchors_linked (run_commands st cs)"
proof (induction cs arbitrary: st)
  case Nil
  then show ?case by simp
next
  case (Cons c cs)
  have "anchors_linked (fst (apply_command st c))"
    using Cons.prems by (simp add: anchors_linked_step)
  moreover have "linkedCalendars (cfg (fst (apply_command st c)))"
    using Cons.prems by (simp add: apply_command_cfg)
  ultimately show ?case using Cons by simp
qed

lemma anchors_linked_updateMonthsInView:
  assumes "linkedCalendars (cfg st)"
    and "endDate st \<noteq> None \<or> anchors_linked st"
    and "\<forall>md. maxDate (cfg st) = Some md \<longrightarrow> 1 \<le> month md \<and> month md \<le> 12"
  shows "anchors_linked (updateMonthsInView st)"
proof -
  have rt: "\<And>md. 1 \<le> month md \<Longrightarrow> month md \<le> 12 \<Longrightarrow>
      plus_months (plus_months (md\<lparr>day := 2\<rparr>) (- 1)) 1 = md\<lparr>day := 2\<rparr>"
    by (intro plus_months_there_and_back) simp_all
  show ?thesis
    using assms rt
    by (auto simp: updateMonthsInView_def anchors_linked_def Let_def day_plus_months
        split: option.splits)
qed


lemma picker0_anchors:
  "cal_month (leftCalendar picker0) = DateTime_local 2024 3 2"
  "cal_month (rightCalendar picker0) = DateTime_local 2024 4 2"
  "linkedCalendars (cfg picker0)"
  by (simp_all add: picker0_def march_2024_def april_2024_def config0_def)

lemma plus_months_examples:
  "plus_months (DateTime_local 2024 3 2) 1 = DateTime_local 2024 4 2"
  "plus_months (DateTime_local 2024 4 2) (- 1) = DateTime_local 2024 3 2"
  "plus_months (DateTime_local 2024 3 2) 0 = DateTime_local 2024 3 2"
  by (simp_all add: plus_months_def monthIndex_def DateTime_local_def daysInMonth_def Let_def)

lemma picker0_linked: "anchors_linked picker0"
  by (simp add: anchors_linked_def picker0_anchors plus_months_examples)
    (simp add: DateTime_local_def)

lemma picker_single_anchors:
  "cal_month (leftCalendar picker_single) = DateTime_local 2024 3 2"
  "cal_month (rightCalendar picker_single) = DateTime_local 2024 4 2"
  "linkedCalendars (cfg picker_single)"
  "singleDatePicker (cfg picker_single)"
  by (simp_all add: picker_single_def picker0_def march_2024_def april_2024_def config0_def)

lemma picker_single_linked: "anchors_linked picker_single"
  by (simp add: anchors_linked_def picker_single_anchors plus_months_examples)
    (simp add: DateTime_local_def)

lemma picker_single_next_left:
  \<open>map_option r_next
     (renderCalendar (calendarRenderer picker_single (\<lambda>d. False) (\<lambda>d. NoCustom))
        (DateTime_local 2024 3 1) picker_single Left) =
   Some ''<th class="next available"><span></span></th>''\<close>
proof -
  have g: "calendar (leftCalendar picker_single) = grid_from (DateTime_local 2024 2 26) 0 0 0"
    by (simp add: picker_single_def picker0_def march_2024_def)
  have m: "maxDate (cfg picker_single) = None" "maxSpan (cfg picker_single) = None"
    "endDate picker_single = Some (endOf_day (DateTime_local 2024 3 10))"
    by (simp_all add: picker_single_def picker0_def config0_def)
  show ?thesis
    unfolding renderCalendar_def
    by (simp add: render_grid [OF g] m)
      (simp add: isNextAvailable_def maxDateLimit_def next_th_def calendarRenderer_def
        picker_single_anchors)
qed

text \<open>
  C2, as stated, fails. A linked picker in single-date mode shows March and April 2024,
  one month apart. Its left calendar renders the next arrow, and the next command on the
  left calendar moves the left anchor alone: both anchors are then on April 2024.
\<close>

theorem linked_anchors_counterexample:
  \<open>linkedCalendars (cfg picker_single) \<and> singleDatePicker (cfg picker_single) \<and>
   anchors_linked picker_single \<and>
   map_option r_next
     (renderCalendar (calendarRenderer picker_single (\<lambda>d. False) (\<lambda>d. NoCustom))
        (DateTime_local 2024 3 1) picker_single Left) =
     Some ''<th class="next available"><span></span></th>'' \<and>
   run_commands picker_single [Next Left] = fst (clickNext picker_single Left) \<and>
   cal_month (leftCalendar (fst (clickNext picker_single Left))) = DateTime_local 2024 4 2 \<and>
   cal_month (rightCalendar (fst (clickNext picker_single Left))) = DateTime_local 2024 4 2 \<and>
   \<not> anchors_linked (run_commands picker_single [Next Left])\<close>
proof -
  have r: "run_commands picker_single [Next Left] = fst (clickNext picker_single Left)"
    by (simp add: apply_command_def)
  have may: "plus_months (DateTime_local 2024 4 2) 1 = DateTime_local 2024 5 2"
    by (simp add: plus_months_def monthIndex_def DateTime_local_def daysInMonth_def Let_def)
  have l: "cal_month (leftCalendar (fst (clickNext picker_single Left))) = DateTime_local 2024 4 2"
    and rt: "cal_month (rightCalendar (fst (clickNext picker_single Left))) = DateTime_local 2024 4 2"
    by (simp_all add: clickNext_left picker_single_anchors plus_months_examples)
  have "\<not> anchors_linked (fst (clickNext picker_single Left))"
    by (simp add: anchors_linked_def l rt may) (simp add: DateTime_local_def)
  then have n: "\<not> anchors_linked (run_commands picker_single [Next Left])"
    unfolding r .
  show ?thesis
    by (intro conjI picker_single_anchors(3,4) picker_single_linked picker_single_next_left
        r l rt n)
qed

text \<open>
  C2, amended. In linked mode, after any sequence of prev commands on the left calendar,
  next commands on the right calendar and month/year-dropdown commands on either side,
  the right anchor is the left anchor plus one month. A prev command on the left and a
  next command on the right shift both anchors by the same month, and \<open>updateMonthsInView\<close>,
  run with an end date present or with anchors one month apart, leaves the two anchors
  one month apart, also where it clamps them to \<open>maxDate\<close>. A linked picker
  renders no prev arrow on the right calendar, and a next arrow on the left calendar in
  single-date mode only; the next command on the left shifts the left anchor by one
  month and leaves the right anchor as it is.
\<close>

theorem linked_anchors_invariant:
  assumes "linkedCalendars (cfg st)" and "anchors_linked st"
    and "\<forall>c\<in>set cs. linked_control c"
  shows "anchors_linked (run_commands st cs) \<and>
     monthIndex (cal_month (rightCalendar (run_commands st cs))) =
       monthIndex (cal_month (leftCalendar (run_commands st cs))) + 1 \<and>
     cal_month (leftCalendar (fst (clickPrev st Left))) =
       plus_months (cal_month (leftCalendar st)) (- 1) \<and>
     cal_month (rightCalendar (fst (clickPrev st Left))) =
       plus_months (cal_month (rightCalendar st)) (- 1) \<and>
     cal_month (leftCalendar (fst (clickNext st Right))) =
       plus_months (cal_month (leftCalendar st)) 1 \<and>
     cal_month (rightCalendar (fst (clickNext st Right))) =
       plus_months (cal_month (rightCalendar st)) 1 \<and>
     (\<forall>st'. linkedCalendars (cfg st') \<and> (endDate st' \<noteq> None \<or> anchors_linked st') \<and>
        (\<forall>md. maxDate (cfg st') = Some md \<longrightarrow> 1 \<le> month md \<and> month md \<le> 12) \<longrightarrow>
        anchors_linked (updateMonthsInView st')) \<and>
     (\<forall>i c minLimit firstDay.
        \<not> isPrevAvailable (calendarRenderer st i c) Right minLimit firstDay) \<and>
     (\<forall>i c maxLimit lastDay.
        isNextAvailable (calendarRenderer st i c) Left maxLimit lastDay \<longrightarrow>
        singleDatePicker (cfg st)) \<and>
     cal_month (leftCalendar (fst (clickNext st Left))) =
       plus_months (cal_month (leftCalendar st)) 1 \<and>
     cal_month (rightCalendar (fst (clickNext st Left))) = cal_month (rightCalendar st)"
proof -
  have inv: "anchors_linked (run_commands st cs)"
    using assms by (rule anchors_linked_run)
  then have idx: "monthIndex (cal_month (rightCalendar (run_commands st cs))) =
       monthIndex (cal_month (leftCalendar (run_commands st cs))) + 1"
    by (simp add: anchors_linked_def monthIndex_plus_months)
  have p: "\<forall>i c minLimit firstDay.
        \<not> isPrevAvailable (calendarRenderer st i c) Right minLimit firstDay"
    using assms(1) by (simp add: isPrevAvailable_def calendarRenderer_def)
  have n: "\<forall>i c maxLimit lastDay.
        isNextAvailable (calendarRenderer st i c) Left maxLimit lastDay \<longrightarrow>
        singleDatePicker (cfg st)"
    using assms(1) by (simp add: isNextAvailable_def calendarRenderer_def)
  from inv idx p n show ?thesis
    using clickPrev_left_linked [OF assms(1)] clickNext_right_linked [OF assms(1)]
      anchors_linked_updateMonthsInView clickNext_left [of st]
    by blast
qed

theorem linked_anchors_invariant_witness:
  "linkedCalendars (cfg picker0) \<and> anchors_linked picker0 \<and>
   linked_control (Prev Left) \<and> linked_control (Next Right) \<and>
   linked_control (MonthOrYear Right 0 2025) \<and>
   anchors_linked (run_commands picker0 [Prev Left, Next Right, MonthOrYear Right 0 2025]) \<and>
   cal_month (leftCalendar (fst (clickPrev picker0 Left))) = DateTime_local 2024 2 2 \<and>
   cal_month (rightCalendar (fst (clickPrev picker0 Left))) = DateTime_local 2024 3 2"
proof -
  have c: "\<forall>c\<in>set [Prev Left, Next Right, MonthOrYear Right 0 2025]. linked_control c"
    by simp
  have m: "plus_months (DateTime_local 2024 3 2) (- 1) = DateTime_local 2024 2 2"
    by (simp add: plus_months_def monthIndex_def DateTime_local_def daysInMonth_def Let_def)
  from linked_anchors_invariant [OF picker0_anchors(3) picker0_linked c]
  show ?thesis
    by (simp add: picker0_anchors picker0_linked plus_months_examples m)
qed

section \<open>The commands on the selection\<close>

lemma andThen_ok: "andThen (st, None) f = f st"
  by (simp add: andThen_def)

lemma andThen_error: "andThen (st, Some e) f = (st, Some e)"
  by (simp add: andThen_def)

lemma updateMonthsInView_fields:
  "cfg (updateMonthsInView st) = cfg st"
  "ranges (updateMonthsInView st) = ranges st"
  "startDate (updateMonthsInView st) = startDate st"
  "endDate (updateMonthsInView st) = endDate st"
  "oldStartDate (updateMonthsInView st) = oldStartDate st"
  "oldEndDate (updateMonthsInView st) = oldEndDate st"
  "chosenLabel (updateMonthsInView st) = chosenLabel st"
  "isShowing (updateMonthsInView st) = isShowing st"
  "showCalendar (updateMonthsInView st) = showCalendar st"
  "applyDisabled (updateMonthsInView st) = applyDisabled st"
  "emitted (updateMonthsInView st) = emitted st"
  by (simp_all add: updateMonthsInView_def Let_def split: option.splits)

lemma updateElement_fst: "fst (updateElement st) = st"
  by (simp add: updateElement_def ok_def throw_def split: option.splits)

lemma updateElement_ok: "endDate st = Some e \<Longrightarrow> updateElement st = (st, None)"
  by (simp add: updateElement_def ok_def)

lemma setEndDate_eq:
  "setEndDate st d =
     (updateMonthsInView (st\<lparr>endDate := Some (if timePicker (cfg st) then d else endOf_day d)\<rparr>),
      None)"
  by (simp add: setEndDate_def Let_def updateElement_ok andThen_ok ok_def)

lemma setStartDate_eq:
  "isShowing st \<or> endDate st \<noteq> None \<Longrightarrow>
   setStartDate st d =
     (updateMonthsInView (st\<lparr>startDate := (if timePicker (cfg st) then d else startOf_day d)\<rparr>),
      None)"
  by (auto simp: setStartDate_def Let_def updateElement_ok andThen_ok ok_def)

lemma setStartDate_cases:
  "setStartDate st d =
     (updateMonthsInView (st\<lparr>startDate := (if timePicker (cfg st) then d else startOf_day d)\<rparr>),
      None) \<or>
   setStartDate st d =
     (st\<lparr>startDate := (if timePicker (cfg st) then d else startOf_day d)\<rparr>, Some TypeError)"
  by (simp add: setStartDate_def Let_def updateElement_def andThen_def ok_def throw_def
      split: option.splits)

lemma setStartDate_fields:
  "startDate (fst (setStartDate st d)) = (if timePicker (cfg st) then d else startOf_day d)"
  "endDate (fst (setStartDate st d)) = endDate st"
  "cfg (fst (setStartDate st d)) = cfg st"
  "emitted (fst (setStartDate st d)) = emitted st"
  "isShowing (fst (setStartDate st d)) = isShowing st"
  using setStartDate_cases [of st d] by (auto simp: updateMonthsInView_fields)

lemma hide_not_showing: "\<not> isShowing st \<Longrightarrow> hide st = (st, None)"
  by (simp add: hide_def ok_def)

lemma hide_incomplete:
  "isShowing st \<Longrightarrow> endDate st = None \<Longrightarrow>
   hide st =
     (st\<lparr>startDate := oldStartDate st, endDate := Some (oldEndDate st), isShowing := False,
         emitted := emitted st @ [Dispatch ''hide.daterangepicker'']\<rparr>, None)"
  by (simp add: hide_def Let_def equals_def updateElement_ok andThen_ok ok_def emit_def)

lemma hide_complete:
  "isShowing st \<Longrightarrow> endDate st = Some e \<Longrightarrow>
   hide st =
     (st\<lparr>isShowing := False,
         emitted := emitted st @
           (if \<not> equals (startDate st) (oldStartDate st) \<or> \<not> equals e (oldEndDate st)
            then [Callback (startDate st) e (chosenLabel st)] else []) @
           [Dispatch ''hide.daterangepicker'']\<rparr>, None)"
  by (simp add: hide_def Let_def updateElement_ok andThen_ok ok_def emit_def)


lemma clickCancel_eq:
  "clickCancel st =
     (st\<lparr>startDate := oldStartDate st, endDate := Some (oldEndDate st), isShowing := False,
         emitted := emitted st @
           (if isShowing st then [Dispatch ''hide.daterangepicker''] else []) @
           [Dispatch ''cancel.daterangepicker'']\<rparr>, None)"
proof (cases "isShowing st")
  case True
  then show ?thesis
    by (simp add: clickCancel_def Let_def
        hide_complete [of "st\<lparr>startDate := oldStartDate st, endDate := Some (oldEndDate st)\<rparr>"
          "oldEndDate st"]
        equals_def andThen_ok ok_def emit_def)
next
  case False
  then show ?thesis
    by (simp add: clickCancel_def Let_def hide_not_showing andThen_ok ok_def emit_def)
qed

lemma valueOf_mar_10: "valueOf (DateTime_local 2024 3 10) = 1710028800000"
  by (simp add: valueOf_def dayNumber_def days_from_civil_def millisOfDay_def DateTime_local_def)

lemma valueOf_mar_11: "valueOf (DateTime_local 2024 3 11) = 1710115200000"
  by (simp add: valueOf_def dayNumber_def days_from_civil_def millisOfDay_def DateTime_local_def)

lemma valueOf_mar_5_end: "valueOf (endOf_day (DateTime_local 2024 3 5)) = 1709683199999"
  by (simp add: valueOf_def dayNumber_def days_from_civil_def millisOfDay_def endOf_day_def
      DateTime_local_def)

text \<open>
  C7, as stated, fails for hiding. The picker shows 11 to 12 March 2024, chosen and not
  applied, over the applied 10 to 15 March: \<open>hide\<close>, as a click outside or the Escape
  key calls it, keeps 11 March as the start and calls the callback with the new pair.
\<close>

theorem hide_counterexample:
  "isShowing picker_edited \<and>
   oldStartDate picker_edited = DateTime_local 2024 3 10 \<and>
   startDate (fst (hide picker_edited)) = DateTime_local 2024 3 11 \<and>
   valueOf (DateTime_local 2024 3 11) \<noteq> valueOf (DateTime_local 2024 3 10) \<and>
   emitted (fst (hide picker_edited)) =
     [Callback (DateTime_local 2024 3 11) (endOf_day (DateTime_local 2024 3 12)) None,
      Dispatch ''hide.daterangepicker''] \<and>
   keydown picker_edited ''Escape'' = hide picker_edited"
proof -
  have s: "isShowing picker_edited"
    and e: "endDate picker_edited = Some (endOf_day (DateTime_local 2024 3 12))"
    by (simp_all add: picker_edited_def picker0_def)
  have ne: "\<not> equals (DateTime_local 2024 3 11) (DateTime_local 2024 3 10)"
    by (simp add: equals_def valueOf_mar_10 valueOf_mar_11)
  show ?thesis
    using ne
    by (simp add: hide_complete [OF s e] keydown_def valueOf_mar_10 valueOf_mar_11)
      (simp add: picker_edited_def picker0_def)
qed

text \<open>
  C7, amended. Cancelling resets the start and the end to the last applied pair in every
  state and calls no callback: it dispatches the hide event, when the picker was showing,
  and the cancel event. Hiding resets the two dates only when no end date is chosen, and
  then calls no callback; with an end date chosen it keeps the two dates and calls the
  callback with them when they differ from the last applied pair.
\<close>

theorem cancel_and_hide:
  "snd (clickCancel st) = None \<and>
   startDate (fst (clickCancel st)) = oldStartDate st \<and>
   endDate (fst (clickCancel st)) = Some (oldEndDate st) \<and>
   emitted (fst (clickCancel st)) =
     emitted st @ (if isShowing st then [Dispatch ''hide.daterangepicker''] else []) @
       [Dispatch ''cancel.daterangepicker''] \<and>
   (isShowing st \<and> endDate st = None \<longrightarrow>
      snd (hide st) = None \<and>
      startDate (fst (hide st)) = oldStartDate st \<and>
      endDate (fst (hide st)) = Some (oldEndDate st) \<and>
      emitted (fst (hide st)) = emitted st @ [Dispatch ''hide.daterangepicker'']) \<and>
   (\<forall>e. isShowing st \<and> endDate st = Some e \<longrightarrow>
      snd (hide st) = None \<and>
      startDate (fst (hide st)) = startDate st \<and>
      endDate (fst (hide st)) = Some e \<and>
      emitted (fst (hide st)) =
        emitted st @
          (if \<not> equals (startDate st) (oldStartDate st) \<or> \<not> equals e (oldEndDate st)
           then [Callback (startDate st) e (chosenLabel st)] else []) @
          [Dispatch ''hide.daterangepicker'']) \<and>
   (\<not> isShowing st \<longrightarrow> hide st = (st, None)) \<and>
   keydown st ''Escape'' = hide st \<and>
   (isShowing st \<longrightarrow> toggle st = hide st) \<and>
   fst (outsideClick st) =
     (if snd (hide st) = None then emit (Dispatch ''outsideClick.daterangepicker'') (fst (hide st))
      else fst (hide st))"
proof -
  have o: "fst (outsideClick st) =
     (if snd (hide st) = None then emit (Dispatch ''outsideClick.daterangepicker'') (fst (hide st))
      else fst (hide st))"
    by (cases "hide st"; cases "snd (hide st)") (auto simp: outsideClick_def andThen_def ok_def)
  show ?thesis
    using o
    by (auto simp: clickCancel_eq hide_incomplete hide_complete hide_not_showing keydown_def
        toggle_def)
qed

theorem cancel_and_hide_witness:
  "isShowing picker_edited \<and>
   endDate picker_edited = Some (endOf_day (DateTime_local 2024 3 12)) \<and>
   snd (hide picker_edited) = None \<and>
   endDate (fst (hide picker_edited)) = Some (endOf_day (DateTime_local 2024 3 12)) \<and>
   startDate (fst (clickCancel picker_edited)) = DateTime_local 2024 3 10 \<and>
   emitted (fst (clickCancel picker_edited)) =
     [Dispatch ''hide.daterangepicker'', Dispatch ''cancel.daterangepicker''] \<and>
   isShowing (picker0\<lparr>endDate := None\<rparr>) \<and> endDate (picker0\<lparr>endDate := None\<rparr>) = None \<and>
   endDate (fst (hide (picker0\<lparr>endDate := None\<rparr>))) = Some (endOf_day (DateTime_local 2024 3 15))"
proof -
  have 1: "isShowing picker_edited"
    "endDate picker_edited = Some (endOf_day (DateTime_local 2024 3 12))"
    "oldStartDate picker_edited = DateTime_local 2024 3 10"
    "emitted picker_edited = []"
    by (simp_all add: picker_edited_def picker0_def)
  have 2: "isShowing (picker0\<lparr>endDate := None\<rparr>)" "endDate (picker0\<lparr>endDate := None\<rparr>) = None"
    "oldEndDate (picker0\<lparr>endDate := None\<rparr>) = endOf_day (DateTime_local 2024 3 15)"
    by (simp_all add: picker0_def)
  from cancel_and_hide [of picker_edited] cancel_and_hide [of "picker0\<lparr>endDate := None\<rparr>"]
  show ?thesis using 1 2 by simp
qed

section \<open>Presets\<close>

lemma startOf_day_idem: "startOf_day (startOf_day d) = startOf_day d"
  by (simp add: startOf_day_def)

lemma endOf_day_idem: "endOf_day (endOf_day d) = endOf_day d"
  by (simp add: endOf_day_def)

lemma updateRanges_stored:
  "map_of (updateRanges tp raw) label = Some (d0, d1) \<Longrightarrow>
   (if tp then d0 else startOf_day d0) = d0 \<and> (if tp then d1 else endOf_day d1) = d1"
  by (induction raw)
    (auto simp: updateRanges_def startOf_day_idem endOf_day_idem split: if_splits)

lemma clickRange_custom:
  "clickRange st (customRangeLabel (cfg st)) =
     (st\<lparr>chosenLabel := Some (customRangeLabel (cfg st)), showCalendar := True\<rparr>, None)"
  by (simp add: clickRange_def Let_def ok_def)

lemma clickApply_showing:
  "isShowing st \<Longrightarrow> endDate st = Some e \<Longrightarrow>
   clickApply st =
     (st\<lparr>isShowing := False,
         emitted := emitted st @
           (if \<not> equals (startDate st) (oldStartDate st) \<or> \<not> equals e (oldEndDate st)
            then [Callback (startDate st) e (chosenLabel st)] else []) @
           [Dispatch ''hide.daterangepicker'', Dispatch ''apply.daterangepicker'']\<rparr>, None)"
  by (simp add: clickApply_def hide_complete andThen_ok ok_def emit_def)

lemma clickApply_hidden:
  "\<not> isShowing st \<Longrightarrow>
   clickApply st = (st\<lparr>emitted := emitted st @ [Dispatch ''apply.daterangepicker'']\<rparr>, None)"
  by (simp add: clickApply_def hide_not_showing andThen_ok ok_def emit_def)

lemma clickRange_preset:
  assumes "label \<noteq> customRangeLabel (cfg st)"
    and "map_of (ranges st) label = Some (d0, d1)"
    and "(if timePicker (cfg st) then d0 else startOf_day d0) = d0"
    and "(if timePicker (cfg st) then d1 else endOf_day d1) = d1"
    and "isShowing st \<or> endDate st \<noteq> None"
  shows "snd (clickRange st label) = None \<and>
     startDate (fst (clickRange st label)) = d0 \<and>
     endDate (fst (clickRange st label)) = Some d1 \<and>
     \<not> isShowing (fst (clickRange st label)) \<and>
     chosenLabel (fst (clickRange st label)) = Some label \<and>
     emitted (fst (clickRange st label)) =
       emitted st @
         (if isShowing st then
            (if \<not> equals d0 (oldStartDate st) \<or> \<not> equals d1 (oldEndDate st)
             then [Callback d0 d1 (Some label)] else []) @ [Dispatch ''hide.daterangepicker'']
          else []) @
         [Dispatch ''apply.daterangepicker'']"
proof -
  let ?s1 = "st\<lparr>chosenLabel := Some label\<rparr>"
  let ?s2 = "updateMonthsInView (?s1\<lparr>startDate := d0\<rparr>)"
  let ?s3 = "updateMonthsInView (?s2\<lparr>endDate := Some d1\<rparr>)"
  let ?s4 = "if \<not> alwaysShowCalendars (cfg ?s3) then ?s3\<lparr>showCalendar := False\<rparr> else ?s3"
  have a: "setStartDate ?s1 d0 = (?s2, None)"
    using assms(3,5) setStartDate_eq [of ?s1 d0] by simp
  have b: "setEndDate ?s2 d1 = (?s3, None)"
    using assms(4) setEndDate_eq [of ?s2 d1] by (simp add: updateMonthsInView_fields)
  have run: "clickRange st label = clickApply ?s4"
    using assms(1,2) by (simp add: clickRange_def Let_def a b andThen_ok)
  have f: "startDate ?s4 = d0" "endDate ?s4 = Some d1" "isShowing ?s4 = isShowing st"
    "oldStartDate ?s4 = oldStartDate st" "oldEndDate ?s4 = oldEndDate st"
    "chosenLabel ?s4 = Some label" "emitted ?s4 = emitted st"
    by (simp_all add: updateMonthsInView_fields)
  show ?thesis
  proof (cases "isShowing st")
    case True
    then have "isShowing ?s4" using f(3) by simp
    from clickApply_showing [OF this f(2)] show ?thesis
      unfolding run using True f by simp
  next
    case False
    then have "\<not> isShowing ?s4" using f(3) by simp
    from clickApply_hidden [OF this] show ?thesis
      unfolding run using False f by simp
  qed
qed


text \<open>
  C9. Choosing a preset other than the custom label sets the start and the end to the
  pair stored for it and commits at once, whatever \<open>autoApply\<close> is: the picker is hidden,
  the callback is called when the pair differs from the last applied one, and the apply
  event is dispatched. Choosing the custom label changes no date and emits nothing.
\<close>

theorem preset_commits:
  assumes "label \<noteq> customRangeLabel (cfg st)"
    and "ranges st = updateRanges (timePicker (cfg st)) raw"
    and "map_of (ranges st) label = Some (d0, d1)"
    and "isShowing st \<or> endDate st \<noteq> None"
  shows "snd (clickRange st label) = None \<and>
     startDate (fst (clickRange st label)) = d0 \<and>
     endDate (fst (clickRange st label)) = Some d1 \<and>
     \<not> isShowing (fst (clickRange st label)) \<and>
     emitted (fst (clickRange st label)) =
       emitted st @
         (if isShowing st then
            (if \<not> equals d0 (oldStartDate st) \<or> \<not> equals d1 (oldEndDate st)
             then [Callback d0 d1 (Some label)] else []) @ [Dispatch ''hide.daterangepicker'']
          else []) @
         [Dispatch ''apply.daterangepicker''] \<and>
     (\<forall>b. startDate (fst (clickRange (st\<lparr>cfg := (cfg st)\<lparr>autoApply := b\<rparr>\<rparr>) label)) = d0 \<and>
          endDate (fst (clickRange (st\<lparr>cfg := (cfg st)\<lparr>autoApply := b\<rparr>\<rparr>) label)) = Some d1 \<and>
          emitted (fst (clickRange (st\<lparr>cfg := (cfg st)\<lparr>autoApply := b\<rparr>\<rparr>) label)) =
            emitted (fst (clickRange st label))) \<and>
     snd (clickRange st (customRangeLabel (cfg st))) = None \<and>
     startDate (fst (clickRange st (customRangeLabel (cfg st)))) = startDate st \<and>
     endDate (fst (clickRange st (customRangeLabel (cfg st)))) = endDate st \<and>
     isShowing (fst (clickRange st (customRangeLabel (cfg st)))) = isShowing st \<and>
     emitted (fst (clickRange st (customRangeLabel (cfg st)))) = emitted st"
proof -
  have stored: "(if timePicker (cfg st) then d0 else startOf_day d0) = d0"
    "(if timePicker (cfg st) then d1 else endOf_day d1) = d1"
    using updateRanges_stored [of "timePicker (cfg st)" raw label d0 d1] assms(2,3) by simp_all
  note main = clickRange_preset [OF assms(1) assms(3) stored assms(4)]
  have other: "startDate (fst (clickRange (st\<lparr>cfg := (cfg st)\<lparr>autoApply := b\<rparr>\<rparr>) label)) = d0 \<and>
          endDate (fst (clickRange (st\<lparr>cfg := (cfg st)\<lparr>autoApply := b\<rparr>\<rparr>) label)) = Some d1 \<and>
          emitted (fst (clickRange (st\<lparr>cfg := (cfg st)\<lparr>autoApply := b\<rparr>\<rparr>) label)) =
            emitted (fst (clickRange st label))" for b
    using clickRange_preset [of label "st\<lparr>cfg := (cfg st)\<lparr>autoApply := b\<rparr>\<rparr>" d0 d1]
      assms(1,3,4) stored main
    by simp
  show ?thesis
    using main other by (simp add: clickRange_custom)
qed

lemma valueOf_mar_8: "valueOf (DateTime_local 2024 3 8) = 1709856000000"
  by (simp add: valueOf_def dayNumber_def days_from_civil_def millisOfDay_def DateTime_local_def)

theorem preset_commits_witness:
  "''Second week'' \<noteq> customRangeLabel (cfg (picker0\<lparr>ranges := presets0\<rparr>)) \<and>
   ranges (picker0\<lparr>ranges := presets0\<rparr>) =
     updateRanges (timePicker (cfg (picker0\<lparr>ranges := presets0\<rparr>)))
       [(''First week'', DateTime_local 2024 3 1, DateTime_local 2024 3 7),
        (''Second week'', DateTime_local 2024 3 8, DateTime_local 2024 3 14)] \<and>
   map_of (ranges (picker0\<lparr>ranges := presets0\<rparr>)) ''Second week'' =
     Some (DateTime_local 2024 3 8, endOf_day (DateTime_local 2024 3 14)) \<and>
   isShowing (picker0\<lparr>ranges := presets0\<rparr>) \<and>
   startDate (fst (clickRange (picker0\<lparr>ranges := presets0\<rparr>) ''Second week'')) =
     DateTime_local 2024 3 8 \<and>
   endDate (fst (clickRange (picker0\<lparr>ranges := presets0\<rparr>) ''Second week'')) =
     Some (endOf_day (DateTime_local 2024 3 14)) \<and>
   emitted (fst (clickRange (picker0\<lparr>ranges := presets0\<rparr>) ''Second week'')) =
     [Callback (DateTime_local 2024 3 8) (endOf_day (DateTime_local 2024 3 14))
        (Some ''Second week''),
      Dispatch ''hide.daterangepicker'', Dispatch ''apply.daterangepicker'']"
proof -
  have 1: "''Second week'' \<noteq> customRangeLabel (cfg (picker0\<lparr>ranges := presets0\<rparr>))"
    by (simp add: picker0_def config0_def)
  have 2: "ranges (picker0\<lparr>ranges := presets0\<rparr>) =
     updateRanges (timePicker (cfg (picker0\<lparr>ranges := presets0\<rparr>)))
       [(''First week'', DateTime_local 2024 3 1, DateTime_local 2024 3 7),
        (''Second week'', DateTime_local 2024 3 8, DateTime_local 2024 3 14)]"
    by (simp add: picker0_def config0_def presets0_def)
  have 3: "map_of (ranges (picker0\<lparr>ranges := presets0\<rparr>)) ''Second week'' =
     Some (DateTime_local 2024 3 8, endOf_day (DateTime_local 2024 3 14))"
    by (simp add: presets0_def updateRanges_def startOf_day_def DateTime_local_def)
  have 4: "isShowing (picker0\<lparr>ranges := presets0\<rparr>) \<or> endDate (picker0\<lparr>ranges := presets0\<rparr>) \<noteq> None"
    by (simp add: picker0_def)
  have 5: "isShowing (picker0\<lparr>ranges := presets0\<rparr>)"
    "emitted (picker0\<lparr>ranges := presets0\<rparr>) = []"
    "oldStartDate (picker0\<lparr>ranges := presets0\<rparr>) = DateTime_local 2024 3 10"
    by (simp_all add: picker0_def)
  have 6: "\<not> equals (DateTime_local 2024 3 8) (DateTime_local 2024 3 10)"
    by (simp add: equals_def valueOf_mar_8 valueOf_mar_10)
  from preset_commits [OF 1 2 3 4] show ?thesis
    using 1 2 3 5 6 by simp
qed

section \<open>Choosing a date\<close>

lemma scanRanges_with_end: "\<exists>found. scanRanges c s (Some e) rs = Inr found"
  by (induction rs) auto

lemma calculateChosenLabel_with_end:
  "endDate st = Some e \<Longrightarrow> snd (calculateChosenLabel st) = None"
  using scanRanges_with_end [of "customRangeLabel (cfg st)" "startDate st" e "ranges st"]
  by (auto simp: calculateChosenLabel_def ok_def)

lemma calculateChosenLabel_fst:
  "fst (calculateChosenLabel st) = st\<lparr>chosenLabel := chosenLabel (fst (calculateChosenLabel st))\<rparr>"
  by (simp add: calculateChosenLabel_def ok_def split: sum.splits)

lemma calculateChosenLabel_depends:
  "cfg a = cfg b \<Longrightarrow> ranges a = ranges b \<Longrightarrow> startDate a = startDate b \<Longrightarrow>
   endDate a = Some e \<Longrightarrow> endDate b = Some e \<Longrightarrow>
   chosenLabel (fst (calculateChosenLabel a)) = chosenLabel (fst (calculateChosenLabel b))"
  using scanRanges_with_end [of "customRangeLabel (cfg b)" "startDate b" e "ranges b"]
  by (auto simp: calculateChosenLabel_def ok_def split: option.splits)

lemma updateFormInputs_fields:
  "cfg (updateFormInputs st) = cfg st"
  "ranges (updateFormInputs st) = ranges st"
  "startDate (updateFormInputs st) = startDate st"
  "endDate (updateFormInputs st) = endDate st"
  "oldStartDate (updateFormInputs st) = oldStartDate st"
  "oldEndDate (updateFormInputs st) = oldEndDate st"
  "chosenLabel (updateFormInputs st) = chosenLabel st"
  "isShowing (updateFormInputs st) = isShowing st"
  "leftCalendar (updateFormInputs st) = leftCalendar st"
  "rightCalendar (updateFormInputs st) = rightCalendar st"
  "showCalendar (updateFormInputs st) = showCalendar st"
  "emitted (updateFormInputs st) = emitted st"
  by (simp_all add: updateFormInputs_def split: option.splits)

lemma updateView_cases:
  "updateView st = (updateFormInputs (fst (updateCalendars (updateMonthsInView st))), None) \<or>
   updateView st = (fst (updateCalendars (updateMonthsInView st)), Some TypeError)"
proof (cases "updateCalendars (updateMonthsInView st)")
  case (Pair s e)
  then show ?thesis
    by (cases e) (auto simp: updateView_def andThen_def ok_def intro: error.exhaust)
qed

lemma updateView_fields:
  "cfg (fst (updateView st)) = cfg st"
  "ranges (fst (updateView st)) = ranges st"
  "startDate (fst (updateView st)) = startDate st"
  "endDate (fst (updateView st)) = endDate st"
  "oldStartDate (fst (updateView st)) = oldStartDate st"
  "oldEndDate (fst (updateView st)) = oldEndDate st"
  "isShowing (fst (updateView st)) = isShowing st"
  "showCalendar (fst (updateView st)) = showCalendar st"
  "emitted (fst (updateView st)) = emitted st"
proof -
  have c: "fst (updateView st) = updateFormInputs (fst (updateCalendars (updateMonthsInView st))) \<or>
      fst (updateView st) = fst (updateCalendars (updateMonthsInView st))"
    using updateView_cases [of st] by auto
  show "cfg (fst (updateView st)) = cfg st"
    using c
    by (elim disjE)
      (simp_all add: updateFormInputs_fields updateCalendars_fields updateMonthsInView_fields)
  show "ranges (fst (updateView st)) = ranges st"
    using c
    by (elim disjE)
      (simp_all add: updateFormInputs_fields updateCalendars_fields updateMonthsInView_fields)
  show "startDate (fst (updateView st)) = startDate st"
    using c
    by (elim disjE)
      (simp_all add: updateFormInputs_fields updateCalendars_fields updateMonthsInView_fields)
  show "endDate (fst (updateView st)) = endDate st"
    using c
    by (elim disjE)
      (simp_all add: updateFormInputs_fields updateCalendars_fields updateMonthsInView_fields)
  show "oldStartDate (fst (updateView st)) = oldStartDate st"
    using c
    by (elim disjE)
      (simp_all add: updateFormInputs_fields updateCalendars_fields updateMonthsInView_fields)
  show "oldEndDate (fst (updateView st)) = oldEndDate st"
    using c
    by (elim disjE)
      (simp_all add: updateFormInputs_fields updateCalendars_fields updateMonthsInView_fields)
  show "isShowing (fst (updateView st)) = isShowing st"
    using c
    by (elim disjE)
      (simp_all add: updateFormInputs_fields updateCalendars_fields updateMonthsInView_fields)
  show "showCalendar (fst (updateView st)) = showCalendar st"
    using c
    by (elim disjE)
      (simp_all add: updateFormInputs_fields updateCalendars_fields updateMonthsInView_fields)
  show "emitted (fst (updateView st)) = emitted st"
    using c
    by (elim disjE)
      (simp_all add: updateFormInputs_fields updateCalendars_fields updateMonthsInView_fields)
qed

lemma updateView_with_end: "endDate st = Some e \<Longrightarrow> snd (updateView st) = None"
proof -
  assume e: "endDate st = Some e"
  have "snd (updateCalendars (updateMonthsInView st)) = None"
    unfolding updateCalendars_eq
    by (rule calculateChosenLabel_with_end [where e = e]) (simp add: e updateMonthsInView_fields)
  then show ?thesis
    by (cases "updateCalendars (updateMonthsInView st)") (simp add: updateView_def andThen_def ok_def)
qed


lemma chooseDate_new_start:
  assumes "\<not> singleDatePicker (cfg st)"
    and "endDate st \<noteq> None \<or> valueOf t < valueOf (startOf_day (startDate st))"
  shows "startDate (fst (chooseDate st t)) = (if timePicker (cfg st) then t else startOf_day t) \<and>
     endDate (fst (chooseDate st t)) = None \<and>
     emitted (fst (chooseDate st t)) = emitted st \<and>
     isShowing (fst (chooseDate st t)) = isShowing st"
proof -
  let ?s2 = "st\<lparr>endDate := None,
                 startDate := (if timePicker (cfg st) then t else startOf_day t)\<rparr>"
  have r1: "chooseDate st t =
      andThen (andThen (setStartDate (st\<lparr>endDate := None\<rparr>) t)
         (\<lambda>s. if singleDatePicker (cfg s)
               then andThen (setEndDate s (startDate s))
                      (\<lambda>s. if \<not> timePicker (cfg s) \<and> autoApply (cfg s) then clickApply s
                            else ok s)
               else ok s)) updateView"
    using assms(2) by (auto simp: chooseDate_def Let_def)
  from setStartDate_cases [of "st\<lparr>endDate := None\<rparr>" t]
  show ?thesis
  proof
    assume a: "setStartDate (st\<lparr>endDate := None\<rparr>) t =
      (updateMonthsInView
         (st\<lparr>endDate := None,
              startDate := (if timePicker (cfg (st\<lparr>endDate := None\<rparr>)) then t else startOf_day t)\<rparr>),
       None)"
    have "chooseDate st t = updateView (updateMonthsInView ?s2)"
      using assms(1) by (simp add: r1 a andThen_ok updateMonthsInView_fields ok_def)
    then show ?thesis
      by (simp add: updateView_fields updateMonthsInView_fields)
  next
    assume a: "setStartDate (st\<lparr>endDate := None\<rparr>) t =
      (st\<lparr>endDate := None,
          startDate := (if timePicker (cfg (st\<lparr>endDate := None\<rparr>)) then t else startOf_day t)\<rparr>,
       Some TypeError)"
    have "chooseDate st t = (?s2, Some TypeError)"
      by (simp add: r1 a andThen_error)
    then show ?thesis by simp
  qed
qed

lemma chooseDate_end:
  assumes "\<not> singleDatePicker (cfg st)"
    and "endDate st = None"
    and "\<not> valueOf t < valueOf (startOf_day (startDate st))"
  shows "snd (chooseDate st t) = None \<and>
     startDate (fst (chooseDate st t)) = startDate st \<and>
     endDate (fst (chooseDate st t)) = Some (if timePicker (cfg st) then t else endOf_day t) \<and>
     isShowing (fst (chooseDate st t)) = (if autoApply (cfg st) then False else isShowing st) \<and>
     emitted (fst (chooseDate st t)) =
       emitted st @
         (if autoApply (cfg st) then
            (if isShowing st then
               (if \<not> equals (startDate st) (oldStartDate st) \<or>
                   \<not> equals (if timePicker (cfg st) then t else endOf_day t) (oldEndDate st)
                then [Callback (startDate st) (if timePicker (cfg st) then t else endOf_day t)
                        (matchedLabel st (if timePicker (cfg st) then t else endOf_day t))]
                else []) @ [Dispatch ''hide.daterangepicker'']
             else []) @ [Dispatch ''apply.daterangepicker'']
          else [])"
proof -
  let ?e = "if timePicker (cfg st) then t else endOf_day t"
  let ?sA = "updateMonthsInView (st\<lparr>endDate := Some ?e\<rparr>)"
  let ?sL = "?sA\<lparr>chosenLabel := matchedLabel st ?e\<rparr>"
  have fA: "cfg ?sA = cfg st" "startDate ?sA = startDate st" "endDate ?sA = Some ?e"
    "isShowing ?sA = isShowing st" "emitted ?sA = emitted st" "ranges ?sA = ranges st"
    "oldStartDate ?sA = oldStartDate st" "oldEndDate ?sA = oldEndDate st"
    by (simp_all add: updateMonthsInView_fields)
  have lab: "chosenLabel (fst (calculateChosenLabel ?sA)) = matchedLabel st ?e"
    unfolding matchedLabel_def
    by (rule calculateChosenLabel_depends [where e = ?e]) (simp_all add: updateMonthsInView_fields)
  have ccl: "calculateChosenLabel ?sA = (?sL, None)"
    using calculateChosenLabel_with_end [OF fA(3)] calculateChosenLabel_fst [of ?sA] lab
    by (metis prod.collapse)
  show ?thesis
  proof (cases "autoApply (cfg st)")
    case False
    have "chooseDate st t = updateView ?sA"
      using assms False
      by (simp add: chooseDate_def Let_def setEndDate_eq andThen_ok fA ok_def)
    then show ?thesis
      using False by (simp add: updateView_fields fA updateView_with_end [OF fA(3)])
  next
    case True
    show ?thesis
    proof (cases "isShowing st")
      case showing: True
      let ?sB = "?sL\<lparr>isShowing := False,
           emitted := emitted ?sL @
             (if \<not> equals (startDate ?sL) (oldStartDate ?sL) \<or> \<not> equals ?e (oldEndDate ?sL)
              then [Callback (startDate ?sL) ?e (chosenLabel ?sL)] else []) @
             [Dispatch ''hide.daterangepicker'', Dispatch ''apply.daterangepicker'']\<rparr>"
      have ap: "clickApply ?sL = (?sB, None)"
        by (rule clickApply_showing) (simp_all add: fA showing)
      have "chooseDate st t = updateView ?sB"
        using assms True
        by (simp add: chooseDate_def Let_def setEndDate_eq andThen_ok fA ccl ap ok_def)
      moreover have "endDate ?sB = Some ?e" by (simp add: fA)
      ultimately show ?thesis
        using True showing
        by (simp add: updateView_fields fA updateView_with_end [where e = ?e])
    next
      case hidden: False
      let ?sB = "?sL\<lparr>emitted := emitted ?sL @ [Dispatch ''apply.daterangepicker'']\<rparr>"
      have ap: "clickApply ?sL = (?sB, None)"
        by (rule clickApply_hidden) (simp add: fA hidden)
      have "chooseDate st t = updateView ?sB"
        using assms True
        by (simp add: chooseDate_def Let_def setEndDate_eq andThen_ok fA ccl ap ok_def)
      moreover have "endDate ?sB = Some ?e" by (simp add: fA)
      ultimately show ?thesis
        using True hidden
        by (simp add: updateView_fields fA updateView_with_end [where e = ?e])
    qed
  qed
qed

lemma clickDate_available:
  "classList_contains (td_classList target) ''available'' \<Longrightarrow>
   lookup_cell st (td_isLeft target) (td_row target) (td_col target) = Some d \<Longrightarrow>
   clickDate st target sel =
     chooseDate st
       (if timePicker (cfg st)
        then d\<lparr>hour := selected_hour (timePicker24Hour (cfg st)) sel,
               minute := minuteselect sel,
               second := selected_second (timePickerSeconds (cfg st)) sel\<rparr>
        else d)"
  by (auto simp: clickDate_def lookup_cell_def cell_def Let_def split: if_splits)

lemma clickDate_unavailable:
  "\<not> classList_contains (td_classList target) ''available'' \<Longrightarrow> clickDate st target sel = (st, None)"
  by (simp add: clickDate_def ok_def)


lemma lookup_mar_20: "lookup_cell picker_single True 3 2 = Some (DateTime_local 2024 3 20)"
proof -
  have "plus_days (DateTime_local 2024 2 26) 23 = DateTime_local 2024 3 20"
    by (simp add: DateTime_local_def plus_days_def eval_nat_numeral next_day_def
        daysInMonth_def isLeapYear_def)
  then show ?thesis
    using cell_grid_from [of 3 2 "DateTime_local 2024 2 26" 0 0 0]
    by (simp add: lookup_cell_def picker_single_def picker0_def march_2024_def set_hms_def
        DateTime_local_def)
qed

lemma chooseDate_single_showing:
  assumes "singleDatePicker (cfg st)" and "isShowing st" and "endDate st \<noteq> None"
    and "\<not> timePicker (cfg st)" and "\<not> autoApply (cfg st)"
  shows "startDate (fst (chooseDate st t)) = startOf_day t \<and>
     endDate (fst (chooseDate st t)) = Some (endOf_day (startOf_day t))"
proof -
  let ?s1 = "updateMonthsInView (st\<lparr>endDate := None, startDate := startOf_day t\<rparr>)"
  let ?s2 = "updateMonthsInView (?s1\<lparr>endDate := Some (endOf_day (startOf_day t))\<rparr>)"
  have a: "setStartDate (st\<lparr>endDate := None\<rparr>) t = (?s1, None)"
    using assms(2,4) setStartDate_eq [of "st\<lparr>endDate := None\<rparr>" t] by simp
  have b: "setEndDate ?s1 (startOf_day t) = (?s2, None)"
    using assms(4) setEndDate_eq [of ?s1 "startOf_day t"] by (simp add: updateMonthsInView_fields)
  have "chooseDate st t = updateView ?s2"
    using assms
    by (simp add: chooseDate_def Let_def a b andThen_ok updateMonthsInView_fields ok_def)
  then show ?thesis
    by (simp add: updateView_fields updateMonthsInView_fields)
qed

lemma april_2024_first:
  "year a = 2024 \<Longrightarrow> month a = 4 \<Longrightarrow> firstCell a 1 = DateTime_local 2024 4 1"
  by (simp add: firstCell_eq weekday_def dayNumber_def days_from_civil_def DateTime_local_def
      plus_days_def)

lemma updateCalendars_calendars:
  "leftCalendar (fst (updateCalendars st)) =
     (leftCalendar st)\<lparr>calendar :=
        grid_from (firstCell (cal_month (leftCalendar st)) (locale_firstDay (cfg st)))
          (hour (cal_month (leftCalendar st))) (minute (cal_month (leftCalendar st)))
          (second (cal_month (leftCalendar st)))\<rparr>"
  "rightCalendar (fst (updateCalendars st)) =
     (rightCalendar st)\<lparr>calendar :=
        grid_from (firstCell (cal_month (rightCalendar st)) (locale_firstDay (cfg st)))
          (hour (cal_month (rightCalendar st))) (minute (cal_month (rightCalendar st)))
          (second (cal_month (rightCalendar st)))\<rparr>"
  unfolding updateCalendars_eq
  by (subst calculateChosenLabel_fst, simp)+

lemma updateView_calendars:
  "leftCalendar (fst (updateView st)) = leftCalendar (fst (updateCalendars (updateMonthsInView st)))"
  "rightCalendar (fst (updateView st)) = rightCalendar (fst (updateCalendars (updateMonthsInView st)))"
  using updateView_cases [of st] by (auto simp: updateFormInputs_fields)

lemma picker_unlinked_fields:
  "\<not> singleDatePicker (cfg picker_unlinked)" "\<not> timePicker (cfg picker_unlinked)"
  "\<not> linkedCalendars (cfg picker_unlinked)" "isShowing picker_unlinked"
  "startDate picker_unlinked = DateTime_local 2024 3 10"
  "endDate picker_unlinked = Some (endOf_day (DateTime_local 2024 4 15))"
  "locale_firstDay (cfg picker_unlinked) = 1"
  "leftCalendar picker_unlinked = march_2024"
  "rightCalendar picker_unlinked = april_2024_late"
  by (simp_all add: picker_unlinked_def picker0_def config0_def)

lemma picker_unlinked_redrawn:
  "leftCalendar (fst (updateView picker_unlinked)) = leftCalendar picker_unlinked"
  "rightCalendar (fst (updateView picker_unlinked)) = rightCalendar picker_unlinked"
proof -
  have m: "updateMonthsInView picker_unlinked = picker_unlinked"
    by (simp add: updateMonthsInView_def picker_unlinked_def picker0_def config0_def Let_def
        march_2024_def april_2024_late_def endOf_day_def DateTime_local_def)
  have fl: "firstCell (DateTime_local 2024 3 2) 1 = DateTime_local 2024 2 26"
    by (rule march_2024_first) (simp_all add: DateTime_local_def)
  have hl: "hour (DateTime_local 2024 3 2) = 0" "minute (DateTime_local 2024 3 2) = 0"
    "second (DateTime_local 2024 3 2) = 0"
    by (simp_all add: DateTime_local_def)
  have fr: "firstCell ((endOf_day (DateTime_local 2024 4 15))\<lparr>day := 2\<rparr>) 1 =
      DateTime_local 2024 4 1"
    by (rule april_2024_first) (simp_all add: endOf_day_def DateTime_local_def)
  have hr: "hour ((endOf_day (DateTime_local 2024 4 15))\<lparr>day := 2\<rparr>) = 23"
    "minute ((endOf_day (DateTime_local 2024 4 15))\<lparr>day := 2\<rparr>) = 59"
    "second ((endOf_day (DateTime_local 2024 4 15))\<lparr>day := 2\<rparr>) = 59"
    by (simp_all add: endOf_day_def)
  show "leftCalendar (fst (updateView picker_unlinked)) = leftCalendar picker_unlinked"
    unfolding updateView_calendars m updateCalendars_calendars picker_unlinked_fields
    by (simp add: march_2024_def fl hl)
  show "rightCalendar (fst (updateView picker_unlinked)) = rightCalendar picker_unlinked"
    unfolding updateView_calendars m updateCalendars_calendars picker_unlinked_fields
    by (simp add: april_2024_late_def fr hr)
qed

lemma lookup_apr_18:
  "lookup_cell picker_unlinked False 2 3 =
     Some ((DateTime_local 2024 4 18)\<lparr>hour := 23, minute := 59, second := 59\<rparr>)"
proof -
  have "plus_days (DateTime_local 2024 4 1) 17 = DateTime_local 2024 4 18"
    by (simp add: DateTime_local_def plus_days_def eval_nat_numeral next_day_def
        daysInMonth_def isLeapYear_def)
  then show ?thesis
    using cell_grid_from [of 2 3 "DateTime_local 2024 4 1" 23 59 59]
    by (simp add: lookup_cell_def picker_unlinked_fields april_2024_late_def set_hms_def)
qed

text \<open>
  C3, as stated, fails. Without a time picker the dates are stored at the start and at
  the end of their day. With 10 March 2024 as the start and no end, choosing the cell
  of 14 March sets the end to the end of 14 March, which is not the date of the cell.
  With unlinked calendars that show 10 March to 15 April, the cells of the right
  calendar carry the time 23:59:59, and choosing the cell of 18 April sets the start to
  the start of 18 April, which is not the date of the cell. In single-date mode, on the
  picker that shows 10 March, choosing the cell of 20 March sets the start to 20 March
  and the end to the end of 20 March: the end is not absent.
\<close>

theorem clickDate_counterexample:
  "\<not> singleDatePicker (cfg (picker0\<lparr>endDate := None\<rparr>)) \<and>
   classList_contains (td_classList td_mar_14) ''available'' \<and>
   lookup_cell (picker0\<lparr>endDate := None\<rparr>) (td_isLeft td_mar_14) (td_row td_mar_14)
     (td_col td_mar_14) = Some (DateTime_local 2024 3 14) \<and>
   endDate (picker0\<lparr>endDate := None\<rparr>) = None \<and>
   \<not> valueOf (DateTime_local 2024 3 14)
       < valueOf (startOf_day (startDate (picker0\<lparr>endDate := None\<rparr>))) \<and>
   endDate (fst (clickDate (picker0\<lparr>endDate := None\<rparr>) td_mar_14 no_time)) =
     Some (endOf_day (DateTime_local 2024 3 14)) \<and>
   endOf_day (DateTime_local 2024 3 14) \<noteq> DateTime_local 2024 3 14 \<and>
   \<not> singleDatePicker (cfg picker_unlinked) \<and>
   leftCalendar (fst (updateView picker_unlinked)) = leftCalendar picker_unlinked \<and>
   rightCalendar (fst (updateView picker_unlinked)) = rightCalendar picker_unlinked \<and>
   endDate picker_unlinked = Some (endOf_day (DateTime_local 2024 4 15)) \<and>
   classList_contains (td_classList td_apr_18) ''available'' \<and>
   lookup_cell picker_unlinked (td_isLeft td_apr_18) (td_row td_apr_18) (td_col td_apr_18) =
     Some ((DateTime_local 2024 4 18)\<lparr>hour := 23, minute := 59, second := 59\<rparr>) \<and>
   startDate (fst (clickDate picker_unlinked td_apr_18 no_time)) = DateTime_local 2024 4 18 \<and>
   endDate (fst (clickDate picker_unlinked td_apr_18 no_time)) = None \<and>
   DateTime_local 2024 4 18 \<noteq> (DateTime_local 2024 4 18)\<lparr>hour := 23, minute := 59, second := 59\<rparr> \<and>
   singleDatePicker (cfg picker_single) \<and>
   endDate picker_single = Some (endOf_day (DateTime_local 2024 3 10)) \<and>
   classList_contains (td_classList td_mar_20) ''available'' \<and>
   lookup_cell picker_single (td_isLeft td_mar_20) (td_row td_mar_20) (td_col td_mar_20) =
     Some (DateTime_local 2024 3 20) \<and>
   startDate (fst (clickDate picker_single td_mar_20 no_time)) = DateTime_local 2024 3 20 \<and>
   endDate (fst (clickDate picker_single td_mar_20 no_time)) =
     Some (endOf_day (DateTime_local 2024 3 20))"
proof -
  let ?st = "picker0\<lparr>endDate := None\<rparr>"
  have p: "\<not> singleDatePicker (cfg ?st)" "\<not> timePicker (cfg ?st)" "\<not> autoApply (cfg ?st)"
    "startDate ?st = DateTime_local 2024 3 10" "endDate ?st = None"
    by (simp_all add: picker0_def config0_def)
  have a14: "classList_contains (td_classList td_mar_14) ''available''"
    by (simp add: td_mar_14_def classList_contains_def)
  have l14: "lookup_cell ?st (td_isLeft td_mar_14) (td_row td_mar_14) (td_col td_mar_14) =
      Some (DateTime_local 2024 3 14)"
    using lookup_mar_14 by (simp add: td_mar_14_def)
  have v14: "\<not> valueOf (DateTime_local 2024 3 14) < valueOf (startOf_day (startDate ?st))"
  proof -
    have "valueOf (startOf_day (DateTime_local 2024 3 10)) = 1710028800000"
      by (simp add: valueOf_startOf_day dayNumber_def days_from_civil_def DateTime_local_def)
    moreover have "valueOf (DateTime_local 2024 3 14) = 1710374400000"
      by (simp add: valueOf_def dayNumber_def days_from_civil_def millisOfDay_def
          DateTime_local_def)
    ultimately show ?thesis unfolding p(4) by simp
  qed
  have c14: "clickDate ?st td_mar_14 no_time = chooseDate ?st (DateTime_local 2024 3 14)"
    using clickDate_available [OF a14 l14, of no_time] p(2) by simp
  have e14: "endDate (fst (clickDate ?st td_mar_14 no_time)) =
      Some (endOf_day (DateTime_local 2024 3 14))"
    unfolding c14 using chooseDate_end [OF p(1) p(5) v14] p(2) by simp
  have n14: "endOf_day (DateTime_local 2024 3 14) \<noteq> DateTime_local 2024 3 14"
    by (simp add: endOf_day_def DateTime_local_def)
  have a18: "classList_contains (td_classList td_apr_18) ''available''"
    by (simp add: td_apr_18_def classList_contains_def)
  have l18: "lookup_cell picker_unlinked (td_isLeft td_apr_18) (td_row td_apr_18)
      (td_col td_apr_18) =
      Some ((DateTime_local 2024 4 18)\<lparr>hour := 23, minute := 59, second := 59\<rparr>)"
    using lookup_apr_18 by (simp add: td_apr_18_def)
  have c18: "clickDate picker_unlinked td_apr_18 no_time =
      chooseDate picker_unlinked ((DateTime_local 2024 4 18)\<lparr>hour := 23, minute := 59, second := 59\<rparr>)"
    using clickDate_available [OF a18 l18, of no_time] picker_unlinked_fields(2) by simp
  have s18: "startDate (fst (clickDate picker_unlinked td_apr_18 no_time)) = DateTime_local 2024 4 18"
    and e18: "endDate (fst (clickDate picker_unlinked td_apr_18 no_time)) = None"
    unfolding c18
    using chooseDate_new_start [OF picker_unlinked_fields(1),
        of "(DateTime_local 2024 4 18)\<lparr>hour := 23, minute := 59, second := 59\<rparr>"]
      picker_unlinked_fields(2,6)
    by (simp_all add: startOf_day_def DateTime_local_def)
  have n18: "DateTime_local 2024 4 18 \<noteq>
      (DateTime_local 2024 4 18)\<lparr>hour := 23, minute := 59, second := 59\<rparr>"
    by (simp add: DateTime_local_def)
  have c: "singleDatePicker (cfg picker_single)" "isShowing picker_single"
    "endDate picker_single \<noteq> None" "\<not> timePicker (cfg picker_single)"
    "\<not> autoApply (cfg picker_single)"
    "endDate picker_single = Some (endOf_day (DateTime_local 2024 3 10))"
    by (simp_all add: picker_single_def picker0_def config0_def)
  have a20: "classList_contains (td_classList td_mar_20) ''available''"
    by (simp add: td_mar_20_def classList_contains_def)
  have l20: "lookup_cell picker_single (td_isLeft td_mar_20) (td_row td_mar_20) (td_col td_mar_20) =
     Some (DateTime_local 2024 3 20)"
    using lookup_mar_20 by (simp add: td_mar_20_def)
  have c20: "clickDate picker_single td_mar_20 no_time = chooseDate picker_single (DateTime_local 2024 3 20)"
    using clickDate_available [OF a20 l20, of no_time] c(4) by simp
  have s20: "startDate (fst (clickDate picker_single td_mar_20 no_time)) = DateTime_local 2024 3 20"
    and e20: "endDate (fst (clickDate picker_single td_mar_20 no_time)) =
     Some (endOf_day (DateTime_local 2024 3 20))"
    unfolding c20
    using chooseDate_single_showing [OF c(1,2,3,4,5), of "DateTime_local 2024 3 20"]
    by (simp_all add: startOf_day_def endOf_day_def DateTime_local_def)
  show ?thesis
    by (intro conjI p(1) a14 l14 p(5) v14 e14 n14 picker_unlinked_fields(1,6)
        picker_unlinked_redrawn a18 l18 s18 e18 n18 c(1) c(6) a20 l20 s20 e20)
qed

text \<open>
  C3, amended. With single-date mode off, a date-cell-chosen command with target date
  \<open>t\<close> (the date of an available cell, with the time of the time selects when there is a
  time picker) does this: if the end date is present or \<open>t\<close> is before the start of the
  day of the start date, the start becomes \<open>t\<close> (the start of its day without a time
  picker) and the end becomes absent; otherwise the end becomes \<open>t\<close> (the end of its day
  without a time picker) and the start stays, and with auto-apply the picker commits at
  once: when it is showing it calls the callback with the matched label, if the pair
  differs from the last applied one, and hides; then it dispatches the apply event.
\<close>

theorem clickDate_transitions:
  assumes "\<not> singleDatePicker (cfg st)"
    and "classList_contains (td_classList target) ''available''"
    and "lookup_cell st (td_isLeft target) (td_row target) (td_col target) = Some d"
    and "t = (if timePicker (cfg st)
              then d\<lparr>hour := selected_hour (timePicker24Hour (cfg st)) sel,
                     minute := minuteselect sel,
                     second := selected_second (timePickerSeconds (cfg st)) sel\<rparr>
              else d)"
  shows "clickDate st target sel = chooseDate st t \<and>
     (endDate st \<noteq> None \<or> valueOf t < valueOf (startOf_day (startDate st)) \<longrightarrow>
        startDate (fst (clickDate st target sel)) =
          (if timePicker (cfg st) then t else startOf_day t) \<and>
        endDate (fst (clickDate st target sel)) = None \<and>
        emitted (fst (clickDate st target sel)) = emitted st \<and>
        isShowing (fst (clickDate st target sel)) = isShowing st) \<and>
     (endDate st = None \<and> \<not> valueOf t < valueOf (startOf_day (startDate st)) \<longrightarrow>
        snd (clickDate st target sel) = None \<and>
        startDate (fst (clickDate st target sel)) = startDate st \<and>
        endDate (fst (clickDate st target sel)) =
          Some (if timePicker (cfg st) then t else endOf_day t) \<and>
        isShowing (fst (clickDate st target sel)) =
          (if autoApply (cfg st) then False else isShowing st) \<and>
        emitted (fst (clickDate st target sel)) =
          emitted st @
            (if autoApply (cfg st) then
               (if isShowing st then
                  (if \<not> equals (startDate st) (oldStartDate st) \<or>
                      \<not> equals (if timePicker (cfg st) then t else endOf_day t) (oldEndDate st)
                   then [Callback (startDate st) (if timePicker (cfg st) then t else endOf_day t)
                           (matchedLabel st (if timePicker (cfg st) then t else endOf_day t))]
                   else []) @ [Dispatch ''hide.daterangepicker'']
                else []) @ [Dispatch ''apply.daterangepicker'']
             else []))"
proof -
  have eq: "clickDate st target sel = chooseDate st t"
    unfolding assms(4) using assms(2,3) by (rule clickDate_available)
  show ?thesis
    unfolding eq
    using chooseDate_new_start [OF assms(1), of t] chooseDate_end [OF assms(1), of t]
    by blast
qed


lemma valueOf_mar_14: "valueOf (DateTime_local 2024 3 14) = 1710374400000"
  by (simp add: valueOf_def dayNumber_def days_from_civil_def millisOfDay_def DateTime_local_def)

theorem clickDate_transitions_witness:
  "\<not> singleDatePicker (cfg (picker0\<lparr>endDate := None\<rparr>)) \<and>
   classList_contains (td_classList td_mar_14) ''available'' \<and>
   lookup_cell (picker0\<lparr>endDate := None\<rparr>) (td_isLeft td_mar_14) (td_row td_mar_14)
     (td_col td_mar_14) = Some (DateTime_local 2024 3 14) \<and>
   endDate (picker0\<lparr>endDate := None\<rparr>) = None \<and>
   \<not> valueOf (DateTime_local 2024 3 14)
       < valueOf (startOf_day (startDate (picker0\<lparr>endDate := None\<rparr>))) \<and>
   snd (clickDate (picker0\<lparr>endDate := None\<rparr>) td_mar_14 no_time) = None \<and>
   startDate (fst (clickDate (picker0\<lparr>endDate := None\<rparr>) td_mar_14 no_time)) =
     DateTime_local 2024 3 10 \<and>
   endDate (fst (clickDate (picker0\<lparr>endDate := None\<rparr>) td_mar_14 no_time)) =
     Some (endOf_day (DateTime_local 2024 3 14)) \<and>
   emitted (fst (clickDate (picker0\<lparr>endDate := None\<rparr>) td_mar_14 no_time)) = []"
proof -
  let ?st = "picker0\<lparr>endDate := None\<rparr>"
  have 1: "\<not> singleDatePicker (cfg ?st)" "\<not> timePicker (cfg ?st)" "\<not> autoApply (cfg ?st)"
    "startDate ?st = DateTime_local 2024 3 10" "emitted ?st = []" "endDate ?st = None"
    by (simp_all add: picker0_def config0_def)
  have 2: "classList_contains (td_classList td_mar_14) ''available''"
    by (simp add: td_mar_14_def classList_contains_def)
  have 3: "lookup_cell ?st (td_isLeft td_mar_14) (td_row td_mar_14) (td_col td_mar_14) =
      Some (DateTime_local 2024 3 14)"
    using lookup_mar_14 by (simp add: td_mar_14_def)
  have 4: "DateTime_local 2024 3 14 =
      (if timePicker (cfg ?st)
       then (DateTime_local 2024 3 14)\<lparr>hour := selected_hour (timePicker24Hour (cfg ?st)) no_time,
              minute := minuteselect no_time,
              second := selected_second (timePickerSeconds (cfg ?st)) no_time\<rparr>
       else DateTime_local 2024 3 14)"
    using 1(2) by simp
  have 5: "\<not> valueOf (DateTime_local 2024 3 14) < valueOf (startOf_day (startDate ?st))"
  proof -
    have "valueOf (startOf_day (DateTime_local 2024 3 10)) = 1710028800000"
      by (simp add: valueOf_startOf_day dayNumber_def days_from_civil_def DateTime_local_def)
    then show ?thesis
      unfolding 1(4) by (simp add: valueOf_mar_14)
  qed
  note t = clickDate_transitions [OF 1(1) 2 3 4]
  note b = t [THEN conjunct2, THEN conjunct2, rule_format, OF conjI [OF 1(6) 5]]
  from b have "snd (clickDate ?st td_mar_14 no_time) = None"
    and "startDate (fst (clickDate ?st td_mar_14 no_time)) = DateTime_local 2024 3 10"
    and "endDate (fst (clickDate ?st td_mar_14 no_time)) = Some (endOf_day (DateTime_local 2024 3 14))"
    and "emitted (fst (clickDate ?st td_mar_14 no_time)) = []"
    using 1(2,3,4,5) by simp_all
  with 1(1,6) 2 3 5 show ?thesis by blast
qed

section \<open>The order of the two endpoints\<close>

lemma setStartDate_applyDisabled:
  "applyDisabled (fst (setStartDate st d)) = applyDisabled st"
  using setStartDate_cases [of st d] by (auto simp: updateMonthsInView_fields)

lemma updateFormInputs_applyDisabled:
  "applyDisabled (updateFormInputs st) \<longleftrightarrow>
     \<not> (\<exists>e. endDate st = Some e \<and> valueOf (startDate st) \<le> valueOf e)"
  by (auto simp: updateFormInputs_def hasSame_millisecond_def split: option.splits)

lemma updateView_applyDisabled:
  assumes "snd (updateView st) = None"
  shows "applyDisabled (fst (updateView st)) \<longleftrightarrow>
     \<not> (\<exists>e. endDate st = Some e \<and> valueOf (startDate st) \<le> valueOf e)"
proof -
  from updateView_cases [of st] assms
  have "fst (updateView st) = updateFormInputs (fst (updateCalendars (updateMonthsInView st)))"
    by auto
  then show ?thesis
    by (simp add: updateFormInputs_applyDisabled updateCalendars_fields updateMonthsInView_fields)
qed

text \<open>
  C4, as stated, fails. On the picker that shows 10 to 15 March 2024, \<open>setEndDate\<close> with
  5 March stores the end of 5 March as the end date and keeps 10 March as the start: the
  end is present and the start is after it, and the apply button is still enabled.
\<close>

theorem inverted_range_counterexample:
  "snd (setEndDate picker0 (DateTime_local 2024 3 5)) = None \<and>
   startDate (fst (setEndDate picker0 (DateTime_local 2024 3 5))) = DateTime_local 2024 3 10 \<and>
   endDate (fst (setEndDate picker0 (DateTime_local 2024 3 5))) =
     Some (endOf_day (DateTime_local 2024 3 5)) \<and>
   valueOf (DateTime_local 2024 3 10) > valueOf (endOf_day (DateTime_local 2024 3 5)) \<and>
   \<not> applyDisabled (fst (setEndDate picker0 (DateTime_local 2024 3 5)))"
  by (simp add: setEndDate_eq updateMonthsInView_fields valueOf_mar_10 valueOf_mar_5_end)
    (simp add: picker0_def config0_def)

text \<open>
  C4, amended. \<open>setStartDate\<close> and \<open>setEndDate\<close> store the date they are given (its start
  of day and its end of day when there is no time picker) and leave the other endpoint
  and the apply button as they are, so that the start can be after a present end. The
  apply button is set by \<open>updateFormInputs\<close>, the last step of \<open>updateView\<close>: after it the
  button is enabled exactly when the end is present and the start is not after it, and
  the two endpoints are as before. With an end date present \<open>updateView\<close> completes.
\<close>

theorem endpoints_not_reordered:
  "startDate (fst (setEndDate st d)) = startDate st \<and>
   endDate (fst (setEndDate st d)) = Some (if timePicker (cfg st) then d else endOf_day d) \<and>
   applyDisabled (fst (setEndDate st d)) = applyDisabled st \<and>
   startDate (fst (setStartDate st d)) = (if timePicker (cfg st) then d else startOf_day d) \<and>
   endDate (fst (setStartDate st d)) = endDate st \<and>
   applyDisabled (fst (setStartDate st d)) = applyDisabled st \<and>
   (applyDisabled (updateFormInputs st) \<longleftrightarrow>
      \<not> (\<exists>e. endDate st = Some e \<and> valueOf (startDate st) \<le> valueOf e)) \<and>
   startDate (updateFormInputs st) = startDate st \<and> endDate (updateFormInputs st) = endDate st \<and>
   (snd (updateView st) = None \<longrightarrow>
      startDate (fst (updateView st)) = startDate st \<and>
      endDate (fst (updateView st)) = endDate st \<and>
      (applyDisabled (fst (updateView st)) \<longleftrightarrow>
         \<not> (\<exists>e. endDate st = Some e \<and> valueOf (startDate st) \<le> valueOf e))) \<and>
   (endDate st \<noteq> None \<longrightarrow> snd (updateView st) = None)"
proof -
  have v: "snd (updateView st) = None \<longrightarrow>
      startDate (fst (updateView st)) = startDate st \<and>
      endDate (fst (updateView st)) = endDate st \<and>
      (applyDisabled (fst (updateView st)) \<longleftrightarrow>
         \<not> (\<exists>e. endDate st = Some e \<and> valueOf (startDate st) \<le> valueOf e))"
    using updateView_applyDisabled [of st] by (simp add: updateView_fields)
  have w: "endDate st \<noteq> None \<longrightarrow> snd (updateView st) = None"
    using updateView_with_end [of st] by auto
  show ?thesis
    by (intro conjI v w updateFormInputs_applyDisabled setStartDate_applyDisabled)
      (simp_all add: setEndDate_eq setStartDate_fields updateMonthsInView_fields
        updateFormInputs_fields)
qed

theorem endpoints_not_reordered_witness:
  "startDate (fst (setEndDate picker0 (DateTime_local 2024 3 5))) = DateTime_local 2024 3 10 \<and>
   endDate (fst (setEndDate picker0 (DateTime_local 2024 3 5))) =
     Some (endOf_day (DateTime_local 2024 3 5)) \<and>
   \<not> applyDisabled (fst (setEndDate picker0 (DateTime_local 2024 3 5))) \<and>
   snd (updateView (fst (setEndDate picker0 (DateTime_local 2024 3 5)))) = None \<and>
   applyDisabled (fst (updateView (fst (setEndDate picker0 (DateTime_local 2024 3 5))))) \<and>
   snd (updateView picker0) = None \<and>
   \<not> applyDisabled (fst (updateView picker0))"
proof -
  let ?s = "fst (setEndDate picker0 (DateTime_local 2024 3 5))"
  note a = endpoints_not_reordered [of picker0 "DateTime_local 2024 3 5"]
  note b = endpoints_not_reordered [of ?s "DateTime_local 2024 3 5"]
  have p: "startDate picker0 = DateTime_local 2024 3 10" "\<not> timePicker (cfg picker0)"
    "endDate picker0 = Some (endOf_day (DateTime_local 2024 3 15))"
    "\<not> applyDisabled picker0"
    by (simp_all add: picker0_def config0_def)
  have s: "startDate ?s = DateTime_local 2024 3 10"
    and e: "endDate ?s = Some (endOf_day (DateTime_local 2024 3 5))"
    and d: "\<not> applyDisabled ?s"
    using a p by simp_all
  have "valueOf (endOf_day (DateTime_local 2024 3 15)) = 1710547199999"
    by (simp add: valueOf_endOf_day dayNumber_def days_from_civil_def DateTime_local_def)
  then have v15: "valueOf (DateTime_local 2024 3 10) \<le> valueOf (endOf_day (DateTime_local 2024 3 15))"
    by (simp add: valueOf_mar_10)
  have u0: "snd (updateView picker0) = None" using a p by simp
  have us: "snd (updateView ?s) = None" using b e by simp
  have "applyDisabled (fst (updateView ?s))"
    using b us s e by (simp add: valueOf_mar_10 valueOf_mar_5_end)
  moreover have "\<not> applyDisabled (fst (updateView picker0))"
    using a u0 p v15 by simp
  ultimately show ?thesis using s e d u0 us by simp
qed

end
